theory Spec2Isabelle
  imports Complex_Main
begin

section \<open>Go values shared by the whole development\<close>

text \<open>
  A Go \<open>error\<close> is either made from a message (\<open>errors.New\<close>, \<open>fmt.Errorf\<close> without
  \<open>%w\<close>) or wraps another error under a message prefix (\<open>fmt.Errorf("...: %w", err)\<close>).
  A value of interface type \<open>error\<close> may be nil: it is an \<open>error option\<close>.
\<close>

datatype error = Error string | Wrap string error

text \<open>The run-time panics of channel operations.\<close>

datatype panic = CloseOfClosedChannel | SendOnClosedChannel

section \<open>Channels\<close>

text \<open>
  A channel is a reference to a queue with a capacity and a closed flag. The channels of
  this program are \<open>chan string\<close> (tokens, full response), \<open>chan error\<close> and
  \<open>chan struct{}\<close> (the stop signal, only ever closed), so the heap keeps one table per
  element type. A send on a channel of capacity 0 needs a waiting receiver; the only
  channel of capacity 0 here is the stop channel, on which nothing is ever sent.
\<close>

record 'a chan =
  cbuf :: "'a list"
  ccap :: nat
  cclosed :: bool

type_synonym ref = nat

record heap =
  strs :: "ref \<Rightarrow> string chan"
  errs :: "ref \<Rightarrow> error option chan"
  sigs :: "ref \<Rightarrow> unit chan"
  nxt :: ref

definition new_chan :: "nat \<Rightarrow> 'a chan" where
  "new_chan n = \<lparr>cbuf = [], ccap = n, cclosed = False\<rparr>"

definition empty_heap :: heap where
  "empty_heap = \<lparr>strs = (\<lambda>r. new_chan 0), errs = (\<lambda>r. new_chan 0),
     sigs = (\<lambda>r. new_chan 0), nxt = 0\<rparr>"

text \<open>\<open>make(chan T, n)\<close>: a fresh reference.\<close>

definition make_str :: "nat \<Rightarrow> heap \<Rightarrow> ref \<times> heap" where
  "make_str n h = (nxt h, h\<lparr>strs := (strs h)(nxt h := new_chan n), nxt := Suc (nxt h)\<rparr>)"

definition make_err :: "nat \<Rightarrow> heap \<Rightarrow> ref \<times> heap" where
  "make_err n h = (nxt h, h\<lparr>errs := (errs h)(nxt h := new_chan n), nxt := Suc (nxt h)\<rparr>)"

definition make_sig :: "nat \<Rightarrow> heap \<Rightarrow> ref \<times> heap" where
  "make_sig n h = (nxt h, h\<lparr>sigs := (sigs h)(nxt h := new_chan n), nxt := Suc (nxt h)\<rparr>)"

text \<open>A receive can proceed when a value is buffered or the channel is closed.\<close>

definition recv_ready :: "'a chan \<Rightarrow> bool" where
  "recv_ready c = (cbuf c \<noteq> [] \<or> cclosed c)"

text \<open>
  \<open>v, ok := <-c\<close> on a channel that is ready: the oldest buffered value, or the zero
  value with \<open>ok = false\<close> once the channel is closed and drained.
\<close>

definition chan_recv :: "'a \<Rightarrow> 'a chan \<Rightarrow> ('a \<times> bool) \<times> 'a chan" where
  "chan_recv zero c =
     (case cbuf c of
        x # xs \<Rightarrow> ((x, True), c\<lparr>cbuf := xs\<rparr>)
      | [] \<Rightarrow> ((zero, False), c))"

text \<open>
  A send can proceed when the buffer has room; on a closed channel it proceeds by
  panicking.
\<close>

definition send_ready :: "'a chan \<Rightarrow> bool" where
  "send_ready c = (cclosed c \<or> length (cbuf c) < ccap c)"

definition chan_send :: "'a \<Rightarrow> 'a chan \<Rightarrow> panic + 'a chan" where
  "chan_send v c =
     (if cclosed c then Inl SendOnClosedChannel else Inr (c\<lparr>cbuf := cbuf c @ [v]\<rparr>))"

definition chan_close :: "'a chan \<Rightarrow> panic + 'a chan" where
  "chan_close c =
     (if cclosed c then Inl CloseOfClosedChannel else Inr (c\<lparr>cclosed := True\<rparr>))"

section \<open>Messages of the update loop (package types)\<close>

datatype msg = TokenMsg string | StreamEndMsg | StreamErrMsg error

section \<open>NextTokenCmd\<close>

text \<open>
  \<open>NextTokenCmd\<close> is one \<open>select\<close> over two receives. Go picks any case that can
  proceed, and blocks while none can. \<open>NextTokenCmd_case\<close> is the body of one case
  (\<open>None\<close> when that case cannot proceed); \<open>NextTokenCmd\<close> lists the outcomes the
  select can have in a heap, the empty list meaning that it blocks.
\<close>

datatype select_case = ErrCase | TokCase

definition NextTokenCmd_case ::
  "select_case \<Rightarrow> ref \<Rightarrow> ref \<Rightarrow> heap \<Rightarrow> (msg \<times> heap) option" where
  "NextTokenCmd_case sc ch errCh h =
     (case sc of
        ErrCase \<Rightarrow>
          (if recv_ready (errs h errCh) then
             (case chan_recv None (errs h errCh) of
                ((err, ok), c') \<Rightarrow>
                  Some ((case err of Some e \<Rightarrow> StreamErrMsg e | None \<Rightarrow> StreamEndMsg),
                        h\<lparr>errs := (errs h)(errCh := c')\<rparr>))
           else None)
      | TokCase \<Rightarrow>
          (if recv_ready (strs h ch) then
             (case chan_recv [] (strs h ch) of
                ((s, ok), c') \<Rightarrow>
                  Some ((if ok then TokenMsg s else StreamEndMsg),
                        h\<lparr>strs := (strs h)(ch := c')\<rparr>))
           else None))"

definition NextTokenCmd :: "ref \<Rightarrow> ref \<Rightarrow> heap \<Rightarrow> (msg \<times> heap) list" where
  "NextTokenCmd ch errCh h =
     List.map_filter (\<lambda>sc. NextTokenCmd_case sc ch errCh h) [ErrCase, TokCase]"

section \<open>The outside world of the storage code\<close>

text \<open>
  The embedding service, the Qdrant server, the file system, the clock, the UUID source
  and the JSON codec are not code of the repository. Each call to them is a function of
  a world state of an arbitrary type \<open>'w\<close> that returns the call's result and the next
  world, so a theorem about an operation holds whatever these services do. Besides the
  world, the state keeps the trace of the calls made, in order and each with its result:
  "no upsert" and "no archive write" are statements about the trace. File contents have an arbitrary
  type \<open>'d\<close>.
\<close>

type_synonym vec = "rat list"

text \<open>
  A payload value of the store (qdrant.Value) is a tagged union; a point written by this
  program only holds string values. \<open>GetStringValue\<close> is the generated getter: the
  empty string for a value of another kind.
\<close>

datatype pvalue = StringValue string | IntegerValue int

fun GetStringValue :: "pvalue \<Rightarrow> string" where
  "GetStringValue (StringValue s) = s"
| "GetStringValue (IntegerValue i) = []"

type_synonym payload = "(string \<times> pvalue) list"

record point_struct =
  p_id :: string
  p_vector :: vec
  p_payload :: payload

record scored_point =
  sp_id :: string
  sp_score :: rat
  sp_payload :: "payload option"

text \<open>A search request; \<open>sr_must\<close> is the filter: every listed field must match its keyword.\<close>

record search_points =
  sr_collection :: string
  sr_vector :: vec
  sr_limit :: nat
  sr_with_payload :: bool
  sr_must :: "(string \<times> string) list"

record QA =
  Question :: string
  Answer :: string
  Time :: nat

record QAFile =
  QAs :: "QA list"

datatype level = Info | Warn | Err | Std

text \<open>
  A log event keeps the level and the message (for a formatted message, its format
  string); the structured fields of an entry are not kept, no operation reads them back.
\<close>

datatype 'd event =
    EvEmbed string "error + vec"
  | EvGet string "error option"
  | EvCreate string nat "error option"
  | EvSearch search_points "error + scored_point list"
  | EvUpsert string point_struct "error option"
  | EvLog level string
  | EvUUID string
  | EvNow nat
  | EvMkdirAll string "error option"
  | EvStat string "error option"
  | EvReadFile string "error + 'd"
  | EvWriteFile string 'd "error option"

record ('w, 'd) st =
  world :: 'w
  trace :: "'d event list"

definition emit :: "'d event \<Rightarrow> ('w, 'd) st \<Rightarrow> ('w, 'd) st" where
  "emit e s = s\<lparr>trace := trace s @ [e]\<rparr>"

text \<open>
  \<open>call f ev s\<close>: make the outside call \<open>f\<close>; the event \<open>ev r\<close> records it with its
  result \<open>r\<close>.
\<close>

definition call ::
  "('w \<Rightarrow> 'r \<times> 'w) \<Rightarrow> ('r \<Rightarrow> 'd event) \<Rightarrow> ('w, 'd) st \<Rightarrow> 'r \<times> ('w, 'd) st" where
  "call f ev s =
     (case f (world s) of (r, w) \<Rightarrow> (r, s\<lparr>world := w, trace := trace s @ [ev r]\<rparr>))"

text \<open>
  The library calls made outside the vector store: \<open>uuid.New\<close>, \<open>time.Now\<close> with its
  RFC 3339 rendering, \<open>os.MkdirAll\<close>, \<open>os.Stat\<close>, \<open>os.ReadFile\<close>, \<open>os.WriteFile\<close>,
  \<open>json.Unmarshal\<close> into an empty \<open>QAFile\<close> and \<open>json.MarshalIndent\<close>.
\<close>

record ('w, 'd) env =
  uuid_New :: "'w \<Rightarrow> string \<times> 'w"
  time_Now :: "'w \<Rightarrow> nat \<times> 'w"
  RFC3339 :: "nat \<Rightarrow> string"
  os_MkdirAll :: "string \<Rightarrow> 'w \<Rightarrow> error option \<times> 'w"
  os_Stat :: "string \<Rightarrow> 'w \<Rightarrow> error option \<times> 'w"
  os_ReadFile :: "string \<Rightarrow> 'w \<Rightarrow> (error + 'd) \<times> 'w"
  os_WriteFile :: "string \<Rightarrow> 'd \<Rightarrow> 'w \<Rightarrow> error option \<times> 'w"
  json_Unmarshal :: "'d \<Rightarrow> error + QAFile"
  json_MarshalIndent :: "QAFile \<Rightarrow> error + 'd"

text \<open>
  The vector store: its collection name, its embedder (an interface value, nil when none
  is configured) and the methods of its two gRPC clients that the code calls.
\<close>

record 'w VectorStore =
  collection :: string
  embedder :: "(string \<Rightarrow> 'w \<Rightarrow> (error + vec) \<times> 'w) option"
  collections_Get :: "string \<Rightarrow> 'w \<Rightarrow> error option \<times> 'w"
  collections_Create :: "string \<Rightarrow> nat \<Rightarrow> 'w \<Rightarrow> error option \<times> 'w"
  points_Search :: "search_points \<Rightarrow> 'w \<Rightarrow> (error + scored_point list) \<times> 'w"
  points_Upsert :: "string \<Rightarrow> point_struct \<Rightarrow> 'w \<Rightarrow> error option \<times> 'w"

section \<open>The model's channel fields and their teardown\<close>

record 'w Model =
  TextInput :: string
  Msg :: string
  LastQuestion :: string
  VectorStore :: "'w VectorStore option"
  VaultPath :: string
  StreamCh :: "ref option"
  ErrCh :: "ref option"
  StopCh :: "ref option"
  Streaming :: bool

text \<open>
  The two closures of \<open>safeCloseChannels\<close> take the address of a field; the field is
  passed and returned here. The address itself is never nil.
\<close>

definition safeClose :: "ref option \<Rightarrow> heap \<Rightarrow> panic + (ref option \<times> heap)" where
  "safeClose ch h =
     (case ch of
        None \<Rightarrow> Inr (None, h)
      | Some r \<Rightarrow>
          (case chan_close (sigs h r) of
             Inl p \<Rightarrow> Inl p
           | Inr c \<Rightarrow> Inr (None, h\<lparr>sigs := (sigs h)(r := c)\<rparr>)))"

definition safeCloseErrCh :: "ref option \<Rightarrow> heap \<Rightarrow> panic + (ref option \<times> heap)" where
  "safeCloseErrCh ch h =
     (case ch of
        None \<Rightarrow> Inr (None, h)
      | Some r \<Rightarrow>
          (case chan_close (errs h r) of
             Inl p \<Rightarrow> Inl p
           | Inr c \<Rightarrow> Inr (None, h\<lparr>errs := (errs h)(r := c)\<rparr>)))"

text \<open>
  The result carries the panic, if one was raised, with the model and the heap as they
  were when it was raised: the fields are updated in place as the function goes.
\<close>

definition safeCloseChannels :: "'w Model \<Rightarrow> heap \<Rightarrow> panic option \<times> 'w Model \<times> heap" where
  "safeCloseChannels m h =
     (case safeClose (StopCh m) h of
        Inl p \<Rightarrow> (Some p, m, h)
      | Inr (f1, h1) \<Rightarrow>
          (case safeCloseErrCh (ErrCh m) h1 of
             Inl p \<Rightarrow> (Some p, m\<lparr>StopCh := f1\<rparr>, h1)
           | Inr (f2, h2) \<Rightarrow>
               (case StreamCh m of
                  None \<Rightarrow> (None, m\<lparr>StopCh := f1, ErrCh := f2\<rparr>, h2)
                | Some r \<Rightarrow>
                    (case chan_close (strs h2 r) of
                       Inl p \<Rightarrow> (Some p, m\<lparr>StopCh := f1, ErrCh := f2\<rparr>, h2)
                     | Inr c \<Rightarrow>
                         (None, m\<lparr>StopCh := f1, ErrCh := f2, StreamCh := None\<rparr>,
                          h2\<lparr>strs := (strs h2)(r := c)\<rparr>)))))"

section \<open>The vector store (package vector)\<close>

definition Embed :: "'w VectorStore \<Rightarrow> string \<Rightarrow> ('w, 'd) st \<Rightarrow> (error + vec) \<times> ('w, 'd) st" where
  "Embed vs text s =
     (case embedder vs of
        None \<Rightarrow> (Inl (Error ''no embedder configured''), s)
      | Some f \<Rightarrow> call (f text) (EvEmbed text) s)"



text \<open>The loop of \<open>QAExists\<close> over the search results.\<close>

fun match_results :: "scored_point list \<Rightarrow> string \<Rightarrow> string \<Rightarrow> bool" where
  "match_results [] question answer = False"
| "match_results (result # rest) question answer =
     (case sp_payload result of
        None \<Rightarrow> match_results rest question answer
      | Some payload \<Rightarrow>
          (case map_of payload ''question'' of
             None \<Rightarrow> match_results rest question answer
           | Some storedQ \<Rightarrow>
               (case map_of payload ''answer'' of
                  None \<Rightarrow> match_results rest question answer
                | Some storedA \<Rightarrow>
                    (if GetStringValue storedQ = question \<and> GetStringValue storedA = answer
                     then True
                     else match_results rest question answer))))"

definition exists_request :: "'w VectorStore \<Rightarrow> vec \<Rightarrow> search_points" where
  "exists_request vs embedding =
     \<lparr>sr_collection = collection vs, sr_vector = embedding, sr_limit = 5,
      sr_with_payload = True, sr_must = [(''type'', ''qa_pair'')]\<rparr>"

definition QAExists ::
  "'w VectorStore \<Rightarrow> string \<Rightarrow> string \<Rightarrow> ('w, 'd) st \<Rightarrow> (error + bool) \<times> ('w, 'd) st" where
  "QAExists vs question answer s =
     (case Embed vs question s of
        (Inl err, s1) \<Rightarrow> (Inl (Wrap ''failed to embed question'' err), s1)
      | (Inr embedding, s1) \<Rightarrow>
          (case call (points_Search vs (exists_request vs embedding))
                  (EvSearch (exists_request vs embedding)) s1 of
             (Inl err, s2) \<Rightarrow> (Inl (Wrap ''search failed'' err), s2)
           | (Inr searchResult, s2) \<Rightarrow> (Inr (match_results searchResult question answer), s2)))"

definition StoreVector ::
  "'w VectorStore \<Rightarrow> string \<Rightarrow> vec \<Rightarrow> (string \<times> string) list \<Rightarrow> ('w, 'd) st \<Rightarrow>
   error option \<times> ('w, 'd) st" where
  "StoreVector vs ident vector metadata s =
     (let s1 = emit (EvLog Info ''Preparing to store vector in collection '%s' with ID: %s'') s;
          payload = map (\<lambda>(k, v). (k, StringValue v)) metadata;
          point = \<lparr>p_id = ident, p_vector = vector, p_payload = payload\<rparr>;
          s2 = emit (EvLog Info ''sending upsert request to Qdrant'') s1
      in case call (points_Upsert vs (collection vs) point) (EvUpsert (collection vs) point) s2 of
           (Some err, s3) \<Rightarrow>
             (Some (Wrap ''failed to store vector in Qdrant'' err),
              emit (EvLog Err ''failed to store vector in Qdrant'') s3)
         | (None, s3) \<Rightarrow>
             (None, emit (EvLog Info ''successfully stored vector in Qdrant'') s3))"

definition qa_metadata :: "string \<Rightarrow> string \<Rightarrow> string \<Rightarrow> (string \<times> string) list" where
  "qa_metadata question answer timestamp =
     [(''type'', ''qa_pair''), (''question'', question), (''answer'', answer),
      (''stored_at'', timestamp), (''vector_type'', ''question'')]"

definition VectorStore_StoreQA ::
  "('w, 'd) env \<Rightarrow> 'w VectorStore \<Rightarrow> string \<Rightarrow> string \<Rightarrow> vec \<Rightarrow> vec \<Rightarrow> ('w, 'd) st \<Rightarrow>
   error option \<times> ('w, 'd) st" where
  "VectorStore_StoreQA env vs question answer questionEmbedding answerEmbedding s =
     (case QAExists vs question answer s of
        (Inl err, s1) \<Rightarrow>
          (Some (Wrap ''failed to check for existing Q&A'' err),
           emit (EvLog Err ''error searching for similar questions'') s1)
      | (Inr exists, s1) \<Rightarrow>
          (if exists then (None, emit (EvLog Info ''Q&A pair already exists in Qdrant'') s1)
           else
             (let s2 = emit (EvLog Info ''Storing Q&A'') s1 in
              case call (uuid_New env) EvUUID s2 of (logged_id, s3) \<Rightarrow>
              let s4 = emit (EvLog Info ''Storing vector with ID: %s, vector size: %d'') s3 in
              case call (uuid_New env) EvUUID s4 of (qaID, s5) \<Rightarrow>
              case call (time_Now env) EvNow s5 of (now, s6) \<Rightarrow>
              case StoreVector vs qaID questionEmbedding
                     (qa_metadata question answer (RFC3339 env now)) s6 of
                (Some err, s7) \<Rightarrow>
                  (Some (Wrap ''failed to store Q&A'' err),
                   emit (EvLog Err ''error storing vector'') s7)
              | (None, s7) \<Rightarrow>
                  (None, emit (EvLog Info ''Successfully stored Q&A in Qdrant. ID: %s'') s7))))"

section \<open>Model.StoreQA (package ui)\<close>

text \<open>
  \<open>filepath.Join\<close> of the Go library for slash-separated paths: the empty elements are
  ignored, the others are joined by a slash and the result is cleaned; with no non-empty
  element the result is the empty string. \<open>filepath.Clean\<close> drops the empty and the
  \<open>.\<close> elements of the path, lets a \<open>..\<close> element remove the element before it (a
  rooted path drops a \<open>..\<close> at the root, an unrooted path keeps a leading one), and returns
  \<open>.\<close> for an empty result.
\<close>

fun split_slash :: "string \<Rightarrow> string list" where
  "split_slash [] = [[]]"
| "split_slash (c # cs) =
     (if c = CHR ''/'' then [] # split_slash cs
      else (case split_slash cs of [] \<Rightarrow> [[c]] | e # es \<Rightarrow> (c # e) # es))"

fun join_slash :: "string list \<Rightarrow> string" where
  "join_slash [] = []"
| "join_slash [e] = e"
| "join_slash (e # es) = e @ ''/'' @ join_slash es"

text \<open>The elements kept so far are held last first.\<close>

fun clean_elements :: "bool \<Rightarrow> string list \<Rightarrow> string list \<Rightarrow> string list" where
  "clean_elements rooted out [] = rev out"
| "clean_elements rooted out (e # es) =
     (if e = [] \<or> e = ''.'' then clean_elements rooted out es
      else if e = ''..'' then
        (case out of
           [] \<Rightarrow> clean_elements rooted (if rooted then [] else [''..'']) es
         | kept # before \<Rightarrow>
             clean_elements rooted (if kept = ''..'' then ''..'' # out else before) es)
      else clean_elements rooted (e # out) es)"

definition filepath_Clean :: "string \<Rightarrow> string" where
  "filepath_Clean path =
     (let rooted = (take 1 path = ''/'');
          body = join_slash (clean_elements rooted [] (split_slash path))
      in if rooted then ''/'' @ body else if body = [] then ''.'' else body)"

definition filepath_Join :: "string list \<Rightarrow> string" where
  "filepath_Join elems =
     (case filter (\<lambda>e. e \<noteq> []) elems of
        [] \<Rightarrow> []
      | e # es \<Rightarrow> filepath_Clean (join_slash (e # es)))"

definition archive_path :: "string \<Rightarrow> string" where
  "archive_path vaultPath = filepath_Join [vaultPath, ''que_ans.json'']"

text \<open>
  The part of \<open>Model.StoreQA\<close> after the existing Q&As have been read: both embeddings,
  the store in Qdrant, then the append and the rewrite of the file.
\<close>

definition StoreQA_write ::
  "('w, 'd) env \<Rightarrow> 'w VectorStore \<Rightarrow> string \<Rightarrow> QAFile \<Rightarrow> string \<Rightarrow> string \<Rightarrow> ('w, 'd) st \<Rightarrow>
   error option \<times> ('w, 'd) st" where
  "StoreQA_write env vs filename qas question answer s =
     (case Embed vs question s of
        (Inl err, s1) \<Rightarrow>
          (Some (Wrap ''failed to embed question'' err),
           emit (EvLog Std ''Error embedding question: %v'') s1)
      | (Inr questionEmbedding, s1) \<Rightarrow>
     (case Embed vs answer s1 of
        (Inl err, s2) \<Rightarrow>
          (Some (Wrap ''failed to embed answer'' err),
           emit (EvLog Std ''Error embedding answer: %v'') s2)
      | (Inr answerEmbedding, s2) \<Rightarrow>
     (case VectorStore_StoreQA env vs question answer questionEmbedding answerEmbedding s2 of
        (Some err, s3) \<Rightarrow>
          (Some (Wrap ''failed to store Q&A in vector database'' err),
           emit (EvLog Std ''Error storing Q&A in Qdrant: %v'') s3)
      | (None, s3) \<Rightarrow>
     (case call (time_Now env) EvNow s3 of (now, s4) \<Rightarrow>
      let newQA = \<lparr>Question = question, Answer = answer, Time = now\<rparr>;
          qas' = qas\<lparr>QAs := QAs qas @ [newQA]\<rparr>
      in case json_MarshalIndent env qas' of
           Inl err \<Rightarrow> (Some (Wrap ''failed to marshal Q&As'' err), s4)
         | Inr data \<Rightarrow>
             (case call (os_WriteFile env filename data) (EvWriteFile filename data) s4 of
                (Some err, s5) \<Rightarrow> (Some (Wrap ''failed to write Q&As to file'' err), s5)
              | (None, s5) \<Rightarrow> (None, s5))))))"

text \<open>
  The part after the duplicate check: the vault directory and the existing file. The
  file is read when \<open>os.Stat\<close> reports no error, whatever the error is otherwise.
\<close>

definition StoreQA_archive ::
  "('w, 'd) env \<Rightarrow> 'w VectorStore \<Rightarrow> string \<Rightarrow> string \<Rightarrow> string \<Rightarrow> ('w, 'd) st \<Rightarrow>
   error option \<times> ('w, 'd) st" where
  "StoreQA_archive env vs vaultPath question answer s =
     (case call (os_MkdirAll env vaultPath) (EvMkdirAll vaultPath) s of
        (Some err, s1) \<Rightarrow> (Some (Wrap ''failed to create vault directory'' err), s1)
      | (None, s1) \<Rightarrow>
     (let filename = archive_path vaultPath in
      case call (os_Stat env filename) (EvStat filename) s1 of
        (Some err, s2) \<Rightarrow>
          StoreQA_write env vs filename \<lparr>QAs = []\<rparr> question answer s2
      | (None, s2) \<Rightarrow>
          (case call (os_ReadFile env filename) (EvReadFile filename) s2 of
             (Inl err, s3) \<Rightarrow> (Some (Wrap ''failed to read existing Q&A file'' err), s3)
           | (Inr data, s3) \<Rightarrow>
               (case json_Unmarshal env data of
                  Inl err \<Rightarrow> (Some (Wrap ''failed to parse existing Q&A file'' err), s3)
                | Inr qas \<Rightarrow> StoreQA_write env vs filename qas question answer s3))))"

text \<open>
  \<open>Model.StoreQA\<close>. An error of its own duplicate check is dropped and the operation
  goes on ("Continue with storage attempt even if check fails"); a duplicate found
  returns nil at once.
\<close>

definition Model_StoreQA ::
  "('w, 'd) env \<Rightarrow> 'w Model \<Rightarrow> string \<Rightarrow> string \<Rightarrow> ('w, 'd) st \<Rightarrow>
   error option \<times> ('w, 'd) st" where
  "Model_StoreQA env m question answer s =
     (case VectorStore m of
        None \<Rightarrow> (Some (Error ''vector store is not initialized''), s)
      | Some vs \<Rightarrow>
          (case QAExists vs question answer s of
             (Inl err, s1) \<Rightarrow> StoreQA_archive env vs (VaultPath m) question answer s1
           | (Inr exists, s1) \<Rightarrow>
               (if exists then (None, s1)
                else StoreQA_archive env vs (VaultPath m) question answer s1)))"

section \<open>DummyEmbedder\<close>


section \<open>An in-memory world\<close>

text \<open>
  Modelled from the spec: the Similarity Store of section 4.2 (the Qdrant server is not
  code of the repository). A collection has a fixed dimension and a sequence of points.
  \<open>upsert\<close> writes or overwrites the point of an identifier; \<open>search\<close> returns at most
  \<open>limit\<close> of the points that pass the filter, by descending cosine similarity, points
  of equal similarity in the order they were written. A vector of another length than
  the collection's is refused. The store can be unreachable for its next searches.
  An upsert is acknowledged at once, and its point becomes visible to the searches of
  the collection after \<open>m_delay\<close> further searches of it (at once when \<open>m_delay\<close> is 0):
  section 4.2 promises the visibility of a write only eventually, and the client does
  not wait for it. The points that are written and not yet visible are \<open>c_pending\<close>, each
  with the number of searches that still miss it.
  The world also holds the files, a clock and a counter for fresh identifiers; a file's
  content is kept parsed, so the JSON codec of this world is the identity.
\<close>

record collection_state =
  c_dim :: nat
  c_points :: "point_struct list"
  c_pending :: "(nat \<times> point_struct) list"

record mem =
  m_collections :: "string \<Rightarrow> collection_state option"
  m_search_faults :: nat
  m_delay :: nat
  m_files :: "string \<Rightarrow> QAFile option"
  m_clock :: nat
  m_uuid :: nat

definition dot :: "vec \<Rightarrow> vec \<Rightarrow> rat" where
  "dot u v = sum_list (map2 (*) u v)"

text \<open>
  The sign of the cosine times its square: it orders vectors as the cosine does, without
  a square root.
\<close>

definition similarity :: "vec \<Rightarrow> vec \<Rightarrow> rat" where
  "similarity q v = sgn (dot q v) * (dot q v * dot q v) / (dot q q * dot v v)"

definition must_match :: "(string \<times> string) list \<Rightarrow> point_struct \<Rightarrow> bool" where
  "must_match must p = list_all (\<lambda>(k, kw). map_of (p_payload p) k = Some (StringValue kw)) must"

definition to_scored :: "search_points \<Rightarrow> point_struct \<Rightarrow> scored_point" where
  "to_scored req p =
     \<lparr>sp_id = p_id p, sp_score = similarity (sr_vector req) (p_vector p),
      sp_payload = (if sr_with_payload req then Some (p_payload p) else None)\<rparr>"

definition ranked :: "search_points \<Rightarrow> point_struct list \<Rightarrow> point_struct list" where
  "ranked req ps =
     take (sr_limit req)
       (sort_key (\<lambda>p. - similarity (sr_vector req) (p_vector p))
          (filter (must_match (sr_must req)) ps))"

definition mem_Get :: "string \<Rightarrow> mem \<Rightarrow> error option \<times> mem" where
  "mem_Get name w =
     (case m_collections w name of
        None \<Rightarrow> (Some (Error ''collection not found''), w)
      | Some c \<Rightarrow> (None, w))"

definition mem_Create :: "string \<Rightarrow> nat \<Rightarrow> mem \<Rightarrow> error option \<times> mem" where
  "mem_Create name vectorSize w =
     (case m_collections w name of
        Some c \<Rightarrow> (Some (Error ''collection already exists''), w)
      | None \<Rightarrow>
          (None, w\<lparr>m_collections := (m_collections w)(name := Some \<lparr>c_dim = vectorSize, c_points = [], c_pending = []\<rparr>)\<rparr>))"

definition write_point :: "point_struct \<Rightarrow> point_struct list \<Rightarrow> point_struct list" where
  "write_point p ps = filter (\<lambda>x. p_id x \<noteq> p_id p) ps @ [p]"

definition accept :: "nat \<Rightarrow> point_struct \<Rightarrow> collection_state \<Rightarrow> collection_state" where
  "accept delay p c =
     (if delay = 0 then c\<lparr>c_points := write_point p (c_points c)\<rparr>
      else c\<lparr>c_pending := c_pending c @ [(delay, p)]\<rparr>)"

text \<open>What a search leaves: the pending points that it was the last to miss are written.\<close>

definition settle :: "collection_state \<Rightarrow> collection_state" where
  "settle c =
     c\<lparr>c_points := fold write_point (map snd (filter (\<lambda>(n, p). n \<le> 1) (c_pending c))) (c_points c),
       c_pending := map (\<lambda>(n, p). (n - 1, p)) (filter (\<lambda>(n, p). 1 < n) (c_pending c))\<rparr>"

definition mem_Upsert :: "string \<Rightarrow> point_struct \<Rightarrow> mem \<Rightarrow> error option \<times> mem" where
  "mem_Upsert name p w =
     (case m_collections w name of
        None \<Rightarrow> (Some (Error ''collection not found''), w)
      | Some c \<Rightarrow>
          (if length (p_vector p) = c_dim c then
             (None, w\<lparr>m_collections := (m_collections w)(name := Some (accept (m_delay w) p c))\<rparr>)
           else (Some (Error ''vector dimension error''), w)))"

definition mem_Search :: "search_points \<Rightarrow> mem \<Rightarrow> (error + scored_point list) \<times> mem" where
  "mem_Search req w =
     (case m_search_faults w of
        Suc n \<Rightarrow> (Inl (Error ''unavailable''), w\<lparr>m_search_faults := n\<rparr>)
      | 0 \<Rightarrow>
          (case m_collections w (sr_collection req) of
             None \<Rightarrow> (Inl (Error ''collection not found''), w)
           | Some c \<Rightarrow>
               (if length (sr_vector req) = c_dim c
                then (Inr (map (to_scored req) (ranked req (c_points c))),
                      w\<lparr>m_collections := (m_collections w)(sr_collection req := Some (settle c))\<rparr>)
                else (Inl (Error ''vector dimension error''), w))))"

text \<open>A store client over this world, for a collection name and an embedder.\<close>

definition mem_store :: "string \<Rightarrow> (string \<Rightarrow> error + vec) \<Rightarrow> mem VectorStore" where
  "mem_store name emb =
     \<lparr>collection = name, embedder = Some (\<lambda>text w. (emb text, w)),
      collections_Get = mem_Get, collections_Create = mem_Create,
      points_Search = mem_Search, points_Upsert = mem_Upsert\<rparr>"

definition fresh_id :: "nat \<Rightarrow> string" where
  "fresh_id n = ''id-'' @ replicate n (CHR ''i'')"

definition stamp :: "nat \<Rightarrow> string" where
  "stamp n = ''t+'' @ replicate n (CHR ''s'')"

definition mem_env :: "(mem, QAFile) env" where
  "mem_env =
     \<lparr>uuid_New = (\<lambda>w. (fresh_id (m_uuid w), w\<lparr>m_uuid := Suc (m_uuid w)\<rparr>)),
      time_Now = (\<lambda>w. (m_clock w, w\<lparr>m_clock := Suc (m_clock w)\<rparr>)),
      RFC3339 = stamp,
      os_MkdirAll = (\<lambda>path w. (None, w)),
      os_Stat = (\<lambda>path w.
         (case m_files w path of None \<Rightarrow> Some (Error ''no such file'') | Some d \<Rightarrow> None, w)),
      os_ReadFile = (\<lambda>path w.
         (case m_files w path of None \<Rightarrow> Inl (Error ''no such file'') | Some d \<Rightarrow> Inr d, w)),
      os_WriteFile = (\<lambda>path d w. (None, w\<lparr>m_files := (m_files w)(path := Some d)\<rparr>)),
      json_Unmarshal = Inr,
      json_MarshalIndent = Inr\<rparr>"

text \<open>
  A small deterministic embedder for the examples: three entries from the text's length.
\<close>

definition length_embedder :: "string \<Rightarrow> error + vec" where
  "length_embedder text = Inr [rat_of_nat (length text), 1, 0]"

definition mem0 :: mem where
  "mem0 =
     \<lparr>m_collections = (\<lambda>name. None)
        (''askai_questions'' := Some \<lparr>c_dim = 3, c_points = [], c_pending = []\<rparr>),
      m_search_faults = 0, m_delay = 0, m_files = (\<lambda>path. None), m_clock = 0, m_uuid = 0\<rparr>"

definition start :: "mem \<Rightarrow> (mem, QAFile) st" where
  "start w = \<lparr>world = w, trace = []\<rparr>"

definition mem_model :: "mem Model" where
  "mem_model = \<lparr>TextInput = [], Msg = [], LastQuestion = [],
     VectorStore = Some (mem_store ''askai_questions'' length_embedder), VaultPath = ''vault'',
     StreamCh = None, ErrCh = None, StopCh = None, Streaming = False\<rparr>"

section \<open>Reading a trace\<close>

text \<open>
  Predicates on events and traces. \<open>upserts_guarded q a ok tr\<close>: every upsert of \<open>tr\<close>
  comes after a search of \<open>tr\<close> that succeeded and returned no candidate matching
  \<open>(q, a)\<close>, with no other search or upsert in between (\<open>ok\<close> stands for the search
  before \<open>tr\<close>). \<open>guarded\<close> is that for a trace taken alone.
  \<open>check_from c q a tr\<close> is where the duplicate check and the store of the pair stand
  at the end of \<open>tr\<close>, when they stood at \<open>c\<close> before it: \<open>Duplicate\<close> when the last search succeeded and returned a candidate
  matching the pair, and no upsert followed it; \<open>Fresh\<close> when it succeeded and returned
  no such candidate, and no upsert followed it; \<open>Stored\<close> when such a search was followed
  by exactly one upsert, which succeeded and wrote a point holding the pair, and by no
  other search; \<open>CheckFailed\<close> when the last search failed and no upsert followed it;
  \<open>StoreFailed\<close> after any other upsert. \<open>ready_to_write\<close>: both embeddings succeeded,
  the state is \<open>Duplicate\<close> or \<open>Stored\<close>, no upsert failed and nothing was written to a
  file.
  \<open>read_before\<close>: the Q&As in memory are those read from the file, or none when
  \<open>os.Stat\<close> reported an error. \<open>appended\<close>: the file content with one Q&A appended.
\<close>

fun is_upsert :: "'d event \<Rightarrow> bool" where
  "is_upsert (EvUpsert c p r) = True"
| "is_upsert e = False"

fun is_write :: "'d event \<Rightarrow> bool" where
  "is_write (EvWriteFile f d r) = True"
| "is_write e = False"

fun search_clear :: "string \<Rightarrow> string \<Rightarrow> bool \<Rightarrow> 'd event list \<Rightarrow> bool" where
  "search_clear q a ok [] = ok"
| "search_clear q a ok (EvSearch req r # es) =
     search_clear q a (case r of Inl e \<Rightarrow> False | Inr rs \<Rightarrow> \<not> match_results rs q a) es"
| "search_clear q a ok (EvUpsert c p r # es) = search_clear q a False es"
| "search_clear q a ok (e # es) = search_clear q a ok es"

fun upserts_guarded :: "string \<Rightarrow> string \<Rightarrow> bool \<Rightarrow> 'd event list \<Rightarrow> bool" where
  "upserts_guarded q a ok [] = True"
| "upserts_guarded q a ok (EvSearch req r # es) =
     upserts_guarded q a (case r of Inl e \<Rightarrow> False | Inr rs \<Rightarrow> \<not> match_results rs q a) es"
| "upserts_guarded q a ok (EvUpsert c p r # es) = (ok \<and> upserts_guarded q a False es)"
| "upserts_guarded q a ok (e # es) = upserts_guarded q a ok es"

definition extends :: "('w, 'd) st \<Rightarrow> ('w, 'd) st \<Rightarrow> 'd event list \<Rightarrow> bool" where
  "extends s s' new = (trace s' = trace s @ new)"

fun embed_ok :: "string \<Rightarrow> 'd event \<Rightarrow> bool" where
  "embed_ok t (EvEmbed t' (Inr v)) = (t' = t)"
| "embed_ok t e = False"

fun upsert_ok :: "'d event \<Rightarrow> bool" where
  "upsert_ok (EvUpsert c p (Some e)) = False"
| "upsert_ok e = True"

definition guarded :: "string \<Rightarrow> string \<Rightarrow> 'd event list \<Rightarrow> bool" where
  "guarded q a new = (\<forall>ok. upserts_guarded q a ok new)"

definition payload_matches :: "string \<Rightarrow> string \<Rightarrow> payload \<Rightarrow> bool" where
  "payload_matches q a pl =
     (case map_of pl ''question'' of
        None \<Rightarrow> False
      | Some storedQ \<Rightarrow>
          (case map_of pl ''answer'' of
             None \<Rightarrow> False
           | Some storedA \<Rightarrow> GetStringValue storedQ = q \<and> GetStringValue storedA = a))"

datatype check = Unchecked | CheckFailed | Duplicate | Fresh | Stored | StoreFailed

fun check_step :: "string \<Rightarrow> string \<Rightarrow> check \<Rightarrow> 'd event \<Rightarrow> check" where
  "check_step q a c (EvSearch req r) =
     (case r of
        Inl e \<Rightarrow> CheckFailed
      | Inr rs \<Rightarrow> if match_results rs q a then Duplicate else Fresh)"
| "check_step q a c (EvUpsert col p r) =
     (if c = Fresh \<and> r = None \<and> payload_matches q a (p_payload p) then Stored else StoreFailed)"
| "check_step q a c e = c"

definition check_from :: "check \<Rightarrow> string \<Rightarrow> string \<Rightarrow> 'd event list \<Rightarrow> check" where
  "check_from c q a tr = foldl (check_step q a) c tr"

definition ready_from :: "check \<Rightarrow> string \<Rightarrow> string \<Rightarrow> 'd event list \<Rightarrow> bool" where
  "ready_from c q a pre =
     (list_ex (embed_ok q) pre \<and> list_ex (embed_ok a) pre \<and>
      (check_from c q a pre = Duplicate \<or> check_from c q a pre = Stored) \<and>
      list_all upsert_ok pre \<and> filter is_write pre = [])"

definition ready_to_write :: "string \<Rightarrow> string \<Rightarrow> 'd event list \<Rightarrow> bool" where
  "ready_to_write q a pre = ready_from Unchecked q a pre"

definition appended :: "('w, 'd) env \<Rightarrow> QAFile \<Rightarrow> string \<Rightarrow> string \<Rightarrow> nat \<Rightarrow> error + 'd" where
  "appended env qas q a now =
     json_MarshalIndent env (qas\<lparr>QAs := QAs qas @ [\<lparr>Question = q, Answer = a, Time = now\<rparr>]\<rparr>)"

fun stat_failed :: "string \<Rightarrow> 'd event \<Rightarrow> bool" where
  "stat_failed f (EvStat f' (Some e)) = (f' = f)"
| "stat_failed f e = False"

fun read_as :: "('w, 'd) env \<Rightarrow> string \<Rightarrow> QAFile \<Rightarrow> 'd event \<Rightarrow> bool" where
  "read_as env f qas (EvReadFile f' (Inr raw)) = (f' = f \<and> json_Unmarshal env raw = Inr qas)"
| "read_as env f qas e = False"

definition read_before :: "('w, 'd) env \<Rightarrow> string \<Rightarrow> 'd event list \<Rightarrow> QAFile \<Rightarrow> bool" where
  "read_before env f pre qas =
     ((qas = \<lparr>QAs = []\<rparr> \<and> list_ex (stat_failed f) pre) \<or> list_ex (read_as env f qas) pre)"

section \<open>Stored records and repeated stores\<close>

text \<open>
  \<open>stored_points\<close> are the points written to a collection, visible or not yet;
  \<open>qa_records\<close> are the points that hold a pair (\<open>payload_matches\<close> is the test of
  \<open>QAExists\<close> on one payload). \<open>new_point\<close> is the point that VectorStore.StoreQA writes
  in the in-memory world. \<open>first_store\<close> and \<open>second_store\<close> are two calls of
  VectorStore.StoreQA in a row with the same pair.
\<close>

definition stored_points :: "string \<Rightarrow> mem \<Rightarrow> point_struct list" where
  "stored_points name w =
     (case m_collections w name of
        None \<Rightarrow> []
      | Some c \<Rightarrow> c_points c @ map snd (c_pending c))"

definition qa_records :: "string \<Rightarrow> string \<Rightarrow> point_struct list \<Rightarrow> point_struct list" where
  "qa_records q a ps = filter (\<lambda>p. payload_matches q a (p_payload p)) ps"

definition candidate_matches :: "string \<Rightarrow> string \<Rightarrow> scored_point \<Rightarrow> bool" where
  "candidate_matches q a r =
     (case sp_payload r of None \<Rightarrow> False | Some pl \<Rightarrow> payload_matches q a pl)"

definition new_point :: "string \<Rightarrow> string \<Rightarrow> vec \<Rightarrow> mem \<Rightarrow> point_struct" where
  "new_point q a e w =
     \<lparr>p_id = fresh_id (Suc (m_uuid w)), p_vector = e,
      p_payload = map (\<lambda>(k, v). (k, StringValue v)) (qa_metadata q a (stamp (m_clock w)))\<rparr>"

definition first_store ::
  "mem VectorStore \<Rightarrow> string \<Rightarrow> string \<Rightarrow> vec \<Rightarrow> vec \<Rightarrow> mem \<Rightarrow> error option \<times> (mem, QAFile) st" where
  "first_store vs q a e ae w = VectorStore_StoreQA mem_env vs q a e ae (start w)"

definition second_store ::
  "mem VectorStore \<Rightarrow> string \<Rightarrow> string \<Rightarrow> vec \<Rightarrow> vec \<Rightarrow> mem \<Rightarrow> error option \<times> (mem, QAFile) st" where
  "second_store vs q a e ae w =
     VectorStore_StoreQA mem_env vs q a e ae (snd (first_store vs q a e ae w))"

section \<open>Example runs in the in-memory world\<close>

definition q1 :: string where
  "q1 = ''What is AI?''"

definition a1 :: string where
  "a1 = ''AI stands for Artificial Intelligence.''"

fun search_failed :: "'d event \<Rightarrow> bool" where
  "search_failed (EvSearch req (Inl e)) = True"
| "search_failed e = False"

text \<open>
  What a run of \<open>Model.StoreQA\<close> in the vault \<open>vault\<close> did: its result, whether a search
  failed, how many upserts and how many file writes it made, and the archive it left.
\<close>

definition outcome ::
  "error option \<times> (mem, QAFile) st \<Rightarrow> error option \<times> bool \<times> nat \<times> nat \<times> QAFile option" where
  "outcome r =
     (fst r, list_ex search_failed (trace (snd r)), length (filter is_upsert (trace (snd r))),
      length (filter is_write (trace (snd r))), m_files (world (snd r)) (archive_path ''vault''))"

text \<open>The store is unreachable for the first search only, or for both searches.\<close>

definition flaky_run :: "error option \<times> (mem, QAFile) st" where
  "flaky_run = Model_StoreQA mem_env mem_model q1 a1 (start (mem0\<lparr>m_search_faults := 1\<rparr>))"

definition down_run :: "error option \<times> (mem, QAFile) st" where
  "down_run = Model_StoreQA mem_env mem_model q1 a1 (start (mem0\<lparr>m_search_faults := 2\<rparr>))"

text \<open>The same pair stored twice, the second call in the world the first one left.\<close>

definition first_run :: "error option \<times> (mem, QAFile) st" where
  "first_run = Model_StoreQA mem_env mem_model q1 a1 (start mem0)"

definition second_run :: "error option \<times> (mem, QAFile) st" where
  "second_run = Model_StoreQA mem_env mem_model q1 a1 (start (world (snd first_run)))"

text \<open>
  \<open>tally\<close>: the result of a call and the number of records of the pair it leaves in a
  collection. \<open>known\<close> is a store that holds the pair \<open>(q1, a1)\<close>, and \<open>blind_run\<close> a call
  of Model.StoreQA for that pair when the first search fails. \<open>lagging\<close> is an empty
  store in which a write is missed by the next search.
\<close>

definition tally ::
  "string \<Rightarrow> string \<Rightarrow> string \<Rightarrow> error option \<times> (mem, QAFile) st \<Rightarrow> error option \<times> nat" where
  "tally q a name r = (fst r, length (qa_records q a (stored_points name (world (snd r)))))"

definition known :: mem where
  "known = mem0\<lparr>m_collections := (m_collections mem0)
     (''askai_questions'' :=
        Some \<lparr>c_dim = 3, c_points = [new_point q1 a1 [11, 1, 0] mem0], c_pending = []\<rparr>)\<rparr>"

definition blind_run :: "error option \<times> (mem, QAFile) st" where
  "blind_run = Model_StoreQA mem_env mem_model q1 a1 (start (known\<lparr>m_search_faults := 1\<rparr>))"

definition lagging :: mem where
  "lagging = mem0\<lparr>m_delay := 1\<rparr>"




text \<open>A model with its three channels open, and what its teardown leaves.\<close>

definition live_model :: "unit Model" where
  "live_model = \<lparr>TextInput = [], Msg = ''AI '', LastQuestion = ''What is AI?'',
     VectorStore = None, VaultPath = ''vault'', StreamCh = Some 0, ErrCh = Some 1, StopCh = Some 2, Streaming = False\<rparr>"

definition torn_model :: "unit Model" where
  "torn_model = live_model\<lparr>StreamCh := None, ErrCh := None, StopCh := None\<rparr>"

definition live_heap :: heap where
  "live_heap = empty_heap\<lparr>strs := (strs empty_heap)(0 := new_chan 64),
     errs := (errs empty_heap)(1 := new_chan 1), nxt := 3\<rparr>"

definition torn_heap :: heap where
  "torn_heap = live_heap\<lparr>sigs := (sigs live_heap)(2 := (new_chan 0)\<lparr>cclosed := True\<rparr>),
     errs := (errs live_heap)(1 := (new_chan 1)\<lparr>cclosed := True\<rparr>),
     strs := (strs live_heap)(0 := (new_chan 64)\<lparr>cclosed := True\<rparr>)\<rparr>"

section \<open>Theorems\<close>

subsection \<open>What each storage operation adds to the trace\<close>

lemma upserts_guarded_append:
  "upserts_guarded q a ok (xs @ ys) =
     (upserts_guarded q a ok xs \<and> upserts_guarded q a (search_clear q a ok xs) ys)"
  by (induction q a ok xs rule: upserts_guarded.induct) auto

lemma extends_refl: "extends s s []"
  by (simp add: extends_def)

lemma extends_trans: "extends s s1 xs \<Longrightarrow> extends s1 s2 ys \<Longrightarrow> extends s s2 (xs @ ys)"
  by (simp add: extends_def)

lemma extends_emit: "extends s (emit e s) [e]"
  by (simp add: extends_def emit_def)

lemma extends_call: "call f ev s = (r, s') \<Longrightarrow> extends s s' [ev r]"
  by (auto simp: extends_def call_def split: prod.splits)

lemma check_from_Nil: "check_from c q a [] = c"
  by (simp add: check_from_def)

lemma check_from_Cons: "check_from c q a (e # es) = check_from (check_step q a c e) q a es"
  by (simp add: check_from_def)

lemma check_from_append:
  "check_from c q a (xs @ ys) = check_from (check_from c q a xs) q a ys"
  by (simp add: check_from_def)

lemma metadata_matches:
  "payload_matches q a (map (\<lambda>(k, x). (k, StringValue x)) (qa_metadata q a ts))"
  by (simp add: payload_matches_def qa_metadata_def)

lemma Embed_extends:
  "Embed vs t s = (r, s') \<Longrightarrow>
   (extends s s' [] \<and> (\<exists>e. r = Inl e)) \<or> extends s s' [EvEmbed t r]"
  by (auto simp: Embed_def extends_refl split: option.splits dest: extends_call)

lemma Embed_failed_extends:
  "Embed vs t s = (Inl err, s') \<Longrightarrow>
   \<exists>new. extends s s' new \<and> filter is_upsert new = [] \<and> filter is_write new = []"
  by (drule Embed_extends) (auto simp: extends_def)

lemma QAExists_extends:
  assumes "QAExists vs q a s = (r, s')"
  shows "\<exists>new. extends s s' new \<and> filter is_upsert new = [] \<and> filter is_write new = [] \<and>
           (r = Inr False \<longrightarrow>
              (\<forall>ok. search_clear q a ok new) \<and> (\<forall>c. check_from c q a new = Fresh)) \<and>
           (r = Inr True \<longrightarrow> (\<forall>c. check_from c q a new = Duplicate))"
proof (cases "Embed vs q s")
  case (Pair e s1)
  note E = Embed_extends [OF Pair]
  show ?thesis
  proof (cases e)
    case (Inl err)
    with Pair assms have "s' = s1" "\<forall>b. r \<noteq> Inr b" by (auto simp: QAExists_def)
    with E show ?thesis by (auto simp: Inl)
  next
    case (Inr v)
    obtain sr s2 where C: "call (points_Search vs (exists_request vs v)) (EvSearch (exists_request vs v)) s1 = (sr, s2)"
      by (cases "call (points_Search vs (exists_request vs v)) (EvSearch (exists_request vs v)) s1") auto
    note X = extends_call [OF C]
    from Pair Inr C assms have "s' = s2" and R: "r = (case sr of Inl err \<Rightarrow> Inl (Wrap ''search failed'' err) | Inr rs \<Rightarrow> Inr (match_results rs q a))"
      by (auto simp: QAExists_def split: sum.splits)
    with E X Inr have "extends s s' [EvEmbed q (Inr v), EvSearch (exists_request vs v) sr]"
      by (auto simp: extends_def)
    with R show ?thesis
      by (intro exI [of _ "[EvEmbed q (Inr v), EvSearch (exists_request vs v) sr]"])
        (auto simp: check_from_Cons check_from_Nil split: sum.splits)
  qed
qed

lemma StoreVector_extends:
  assumes "StoreVector vs ident v md s = (r, s')"
  shows "\<exists>ur lv msg.
           extends s s'
             [EvLog Info ''Preparing to store vector in collection '%s' with ID: %s'',
              EvLog Info ''sending upsert request to Qdrant'',
              EvUpsert (collection vs)
                \<lparr>p_id = ident, p_vector = v, p_payload = map (\<lambda>(k, x). (k, StringValue x)) md\<rparr> ur,
              EvLog lv msg] \<and>
           r = map_option (Wrap ''failed to store vector in Qdrant'') ur"
  using assms
  by (auto simp: StoreVector_def Let_def call_def emit_def extends_def
      split: prod.splits option.splits)

lemma no_upsert_ok: "filter is_upsert xs = [] \<Longrightarrow> list_all upsert_ok xs"
  by (induction xs) (auto split: if_splits elim: is_upsert.elims)

lemma no_upsert_guarded: "filter is_upsert xs = [] \<Longrightarrow> upserts_guarded q a ok xs"
  by (induction q a ok xs rule: upserts_guarded.induct) auto

lemma guarded_append: "guarded q a xs \<Longrightarrow> guarded q a ys \<Longrightarrow> guarded q a (xs @ ys)"
  by (simp add: guarded_def upserts_guarded_append)

lemma guarded_no_upsert: "filter is_upsert xs = [] \<Longrightarrow> guarded q a xs"
  by (simp add: guarded_def no_upsert_guarded)

lemma guarded_Nil: "guarded q a []"
  by (simp add: guarded_def)

lemma guarded_Cons: "\<not> is_upsert e \<Longrightarrow> guarded q a es \<Longrightarrow> guarded q a (e # es)"
  by (cases e) (auto simp: guarded_def)

text \<open>
  What VectorStore.StoreQA does after a check that found no duplicate: two identifiers,
  the time, and one upsert of a point with the second identifier, the question's
  embedding as it was passed in, and the pair in its payload.
\<close>

lemma VectorStore_StoreQA_fresh:
  assumes Q: "QAExists vs q a s = (Inr False, s0)"
    and R: "VectorStore_StoreQA env vs q a qe ae s = (r, s')"
  shows "\<exists>i1 i2 t ur lv msg lv' msg'.
           extends s0 s'
             [EvLog Info ''Storing Q&A'', EvUUID i1,
              EvLog Info ''Storing vector with ID: %s, vector size: %d'', EvUUID i2, EvNow t,
              EvLog Info ''Preparing to store vector in collection '%s' with ID: %s'',
              EvLog Info ''sending upsert request to Qdrant'',
              EvUpsert (collection vs)
                \<lparr>p_id = i2, p_vector = qe,
                   p_payload = map (\<lambda>(k, x). (k, StringValue x)) (qa_metadata q a (RFC3339 env t))\<rparr> ur,
              EvLog lv msg, EvLog lv' msg'] \<and>
           r = map_option (Wrap ''failed to store Q&A'')
                 (map_option (Wrap ''failed to store vector in Qdrant'') ur)"
proof -
  obtain i1 s3 where c1: "call (uuid_New env) EvUUID (emit (EvLog Info ''Storing Q&A'') s0) = (i1, s3)"
    by (meson surj_pair)
  obtain i2 s5 where c2: "call (uuid_New env) EvUUID
      (emit (EvLog Info ''Storing vector with ID: %s, vector size: %d'') s3) = (i2, s5)"
    by (meson surj_pair)
  obtain t s6 where c3: "call (time_Now env) EvNow s5 = (t, s6)"
    by (meson surj_pair)
  obtain sv s7 where c4: "StoreVector vs i2 qe (qa_metadata q a (RFC3339 env t)) s6 = (sv, s7)"
    by (meson surj_pair)
  from StoreVector_extends [OF c4] obtain ur lv msg where
    sv: "extends s6 s7 [EvLog Info ''Preparing to store vector in collection '%s' with ID: %s'',
            EvLog Info ''sending upsert request to Qdrant'',
            EvUpsert (collection vs)
              \<lparr>p_id = i2, p_vector = qe,
                 p_payload = map (\<lambda>(k, x). (k, StringValue x)) (qa_metadata q a (RFC3339 env t))\<rparr> ur,
            EvLog lv msg]"
    and svr: "sv = map_option (Wrap ''failed to store vector in Qdrant'') ur"
    by blast
  from Q c1 c2 c3 c4 R obtain lv' msg' where s': "s' = emit (EvLog lv' msg') s7"
    and r: "r = map_option (Wrap ''failed to store Q&A'') sv"
    by (auto simp: VectorStore_StoreQA_def Let_def split: option.splits)
  from sv s' extends_call [OF c1] extends_call [OF c2] extends_call [OF c3]
  have "extends s0 s'
             [EvLog Info ''Storing Q&A'', EvUUID i1,
              EvLog Info ''Storing vector with ID: %s, vector size: %d'', EvUUID i2, EvNow t,
              EvLog Info ''Preparing to store vector in collection '%s' with ID: %s'',
              EvLog Info ''sending upsert request to Qdrant'',
              EvUpsert (collection vs)
                \<lparr>p_id = i2, p_vector = qe,
                   p_payload = map (\<lambda>(k, x). (k, StringValue x)) (qa_metadata q a (RFC3339 env t))\<rparr> ur,
              EvLog lv msg, EvLog lv' msg']"
    by (simp add: extends_def emit_def)
  with r svr show ?thesis
    by blast
qed

lemma VectorStore_StoreQA_extends:
  assumes "VectorStore_StoreQA env vs q a qe ae s = (r, s')"
  shows "\<exists>new. extends s s' new \<and> filter is_write new = [] \<and> guarded q a new \<and>
           (r = None \<longrightarrow> list_all upsert_ok new \<and>
              (\<forall>c. check_from c q a new = Duplicate \<or> check_from c q a new = Stored))"
proof (cases "QAExists vs q a s")
  case (Pair x s1)
  from QAExists_extends [OF Pair] obtain n1 where
    n1: "extends s s1 n1" "filter is_upsert n1 = []" "filter is_write n1 = []"
        "x = Inr False \<longrightarrow> (\<forall>ok. search_clear q a ok n1) \<and> (\<forall>c. check_from c q a n1 = Fresh)"
        "x = Inr True \<longrightarrow> (\<forall>c. check_from c q a n1 = Duplicate)"
    by blast
  show ?thesis
  proof (cases "x = Inr False")
    case False
    with Pair assms obtain lv msg where "s' = emit (EvLog lv msg) s1"
      and "r = None \<longrightarrow> x = Inr True"
      by (cases x) (auto simp: VectorStore_StoreQA_def split: if_splits)
    with n1 have "extends s s' (n1 @ [EvLog lv msg])" "filter is_write (n1 @ [EvLog lv msg]) = []"
      "filter is_upsert (n1 @ [EvLog lv msg]) = []"
      "r = None \<longrightarrow> (\<forall>c. check_from c q a (n1 @ [EvLog lv msg]) = Duplicate)"
      by (auto simp: extends_def emit_def check_from_append check_from_Cons check_from_Nil)
    then show ?thesis using guarded_no_upsert no_upsert_ok by blast
  next
    case True
    with Pair have Q: "QAExists vs q a s = (Inr False, s1)"
      by simp
    from VectorStore_StoreQA_fresh [OF Q assms] obtain i1 i2 t ur lv msg lv' msg' where
      ext: "extends s1 s'
             [EvLog Info ''Storing Q&A'', EvUUID i1,
              EvLog Info ''Storing vector with ID: %s, vector size: %d'', EvUUID i2, EvNow t,
              EvLog Info ''Preparing to store vector in collection '%s' with ID: %s'',
              EvLog Info ''sending upsert request to Qdrant'',
              EvUpsert (collection vs)
                \<lparr>p_id = i2, p_vector = qe,
                   p_payload = map (\<lambda>(k, x). (k, StringValue x)) (qa_metadata q a (RFC3339 env t))\<rparr> ur,
              EvLog lv msg, EvLog lv' msg']"
      and r: "r = map_option (Wrap ''failed to store Q&A'')
                 (map_option (Wrap ''failed to store vector in Qdrant'') ur)"
      by blast
    let ?rest = "[EvLog Info ''Storing Q&A'', EvUUID i1,
        EvLog Info ''Storing vector with ID: %s, vector size: %d'', EvUUID i2, EvNow t,
        EvLog Info ''Preparing to store vector in collection '%s' with ID: %s'',
        EvLog Info ''sending upsert request to Qdrant'',
        EvUpsert (collection vs)
          \<lparr>p_id = i2, p_vector = qe,
             p_payload = map (\<lambda>(k, x). (k, StringValue x)) (qa_metadata q a (RFC3339 env t))\<rparr> ur,
        EvLog lv msg, EvLog lv' msg']"
    from n1 ext have X: "extends s s' (n1 @ ?rest)"
      by (simp add: extends_def)
    have W: "filter is_write (n1 @ ?rest) = []"
      using n1 by simp
    have G: "guarded q a (n1 @ ?rest)"
      using n1 True by (auto simp: guarded_def upserts_guarded_append no_upsert_guarded)
    have U: "r = None \<longrightarrow> list_all upsert_ok (n1 @ ?rest) \<and>
        (\<forall>c. check_from c q a (n1 @ ?rest) = Duplicate \<or> check_from c q a (n1 @ ?rest) = Stored)"
      using n1 True r
      by (auto simp: no_upsert_ok check_from_append check_from_Cons check_from_Nil
          metadata_matches)
    from X W G U show ?thesis by blast
  qed
qed

lemma ready_from_prefix:
  assumes "\<forall>c. ready_from c q a pre" and "list_all upsert_ok xs" and "filter is_write xs = []"
  shows "ready_from c q a (xs @ pre)"
  using assms by (auto simp: ready_from_def check_from_append)

lemma StoreQA_write_extends:
  assumes "StoreQA_write env vs f qas q a s = (r, s')"
  shows "\<exists>new. extends s s' new \<and> guarded q a new \<and>
           ((filter is_write new = [] \<and> (\<exists>err. r = Some err)) \<or>
            (\<exists>pre now data wr. new = pre @ [EvNow now, EvWriteFile f data wr] \<and>
               (\<forall>c. ready_from c q a pre) \<and> appended env qas q a now = Inr data \<and>
               r = map_option (Wrap ''failed to write Q&As to file'') wr))"
proof (cases "Embed vs q s")
  case (Pair x1 s1)
  note E1 = Embed_extends [OF Pair]
  show ?thesis
  proof (cases x1)
    case (Inl err)
    with Pair assms have "r = Some (Wrap ''failed to embed question'' err)"
      "s' = emit (EvLog Std ''Error embedding question: %v'') s1"
      by (auto simp: StoreQA_write_def)
    moreover from Pair Inl obtain n where "extends s s1 n" "filter is_upsert n = []"
      "filter is_write n = []"
      using Embed_failed_extends by blast
    ultimately show ?thesis
      by (intro exI [of _ "n @ [EvLog Std ''Error embedding question: %v'']"])
        (simp add: extends_def emit_def guarded_append guarded_no_upsert guarded_Cons guarded_Nil)
  next
    case qv: (Inr qemb)
    with E1 have X1: "extends s s1 [EvEmbed q (Inr qemb)]"
      by auto
    obtain x2 s2 where P2: "Embed vs a s1 = (x2, s2)"
      by (meson surj_pair)
    note E2 = Embed_extends [OF P2]
    show ?thesis
    proof (cases x2)
      case (Inl err)
      with Pair qv P2 assms have "r = Some (Wrap ''failed to embed answer'' err)"
        "s' = emit (EvLog Std ''Error embedding answer: %v'') s2"
        by (auto simp: StoreQA_write_def)
      moreover from P2 Inl obtain n where "extends s1 s2 n" "filter is_upsert n = []"
        "filter is_write n = []"
        using Embed_failed_extends by blast
      ultimately show ?thesis
        using X1
        by (intro exI [of _ "EvEmbed q (Inr qemb) # n @ [EvLog Std ''Error embedding answer: %v'']"])
          (simp add: extends_def emit_def guarded_append guarded_no_upsert guarded_Cons guarded_Nil)
    next
      case av: (Inr aemb)
      with E2 have X2: "extends s1 s2 [EvEmbed a (Inr aemb)]"
        by auto
      obtain x3 s3 where P3: "VectorStore_StoreQA env vs q a qemb aemb s2 = (x3, s3)"
        by (meson surj_pair)
      from VectorStore_StoreQA_extends [OF P3] obtain n3 where
        n3: "extends s2 s3 n3" "filter is_write n3 = []" "guarded q a n3"
          "x3 = None \<longrightarrow> list_all upsert_ok n3 \<and>
              (\<forall>c. check_from c q a n3 = Duplicate \<or> check_from c q a n3 = Stored)"
        by blast
      let ?pre = "[EvEmbed q (Inr qemb), EvEmbed a (Inr aemb)] @ n3"
      have G: "guarded q a ?pre"
        using n3 by (simp add: guarded_Cons)
      from X1 X2 n3 have X3: "extends s s3 ?pre"
        by (simp add: extends_def)
      show ?thesis
      proof (cases x3)
        case (Some err)
        with Pair qv P2 av P3 assms have
          "r = Some (Wrap ''failed to store Q&A in vector database'' err)"
          "s' = emit (EvLog Std ''Error storing Q&A in Qdrant: %v'') s3"
          by (auto simp: StoreQA_write_def)
        with X3 G n3 show ?thesis
          by (intro exI [of _ "?pre @ [EvLog Std ''Error storing Q&A in Qdrant: %v'']"])
            (simp add: extends_def emit_def guarded_append guarded_Cons guarded_Nil)
      next
        case None
        obtain now s4 where P4: "call (time_Now env) EvNow s3 = (now, s4)"
          by (meson surj_pair)
        note X4 = extends_call [OF P4]
        from None n3 have RF: "\<forall>c. ready_from c q a ?pre"
          by (simp add: ready_from_def check_from_Cons)
        show ?thesis
        proof (cases "appended env qas q a now")
          case (Inl err)
          with Pair qv P2 av P3 None P4 assms have
            "r = Some (Wrap ''failed to marshal Q&As'' err)" "s' = s4"
            by (auto simp: StoreQA_write_def appended_def Let_def)
          with X3 X4 G n3 show ?thesis
            by (intro exI [of _ "?pre @ [EvNow now]"])
              (simp add: extends_def guarded_append guarded_Cons guarded_Nil)
        next
          case (Inr data)
          obtain wr s5 where P5: "call (os_WriteFile env f data) (EvWriteFile f data) s4 = (wr, s5)"
            by (meson surj_pair)
          note X5 = extends_call [OF P5]
          from Pair qv P2 av P3 None P4 Inr P5 assms have
            "r = map_option (Wrap ''failed to write Q&As to file'') wr" "s' = s5"
            by (auto simp: StoreQA_write_def appended_def Let_def split: option.splits)
          moreover have "guarded q a (?pre @ [EvNow now, EvWriteFile f data wr])"
            by (rule guarded_append [OF G]) (simp add: guarded_Cons guarded_Nil)
          ultimately show ?thesis
            using X3 X4 X5 RF Inr
            by (intro exI [of _ "?pre @ [EvNow now, EvWriteFile f data wr]"])
              (auto simp: extends_def)
        qed
      qed
    qed
  qed
qed

lemma StoreQA_archive_extends:
  assumes "StoreQA_archive env vs vp q a s = (r, s')"
  shows "\<exists>new. extends s s' new \<and> guarded q a new \<and>
           ((filter is_write new = [] \<and> (\<exists>err. r = Some err)) \<or>
            (\<exists>pre now data wr qas.
               new = pre @ [EvNow now, EvWriteFile (archive_path vp) data wr] \<and>
               (\<forall>c. ready_from c q a pre) \<and> read_before env (archive_path vp) pre qas \<and>
               appended env qas q a now = Inr data \<and>
               r = map_option (Wrap ''failed to write Q&As to file'') wr))"
proof -
  let ?f = "archive_path vp"
  have step: ?thesis
    if W: "StoreQA_write env vs ?f qas q a s2 = (r, s')" and X: "extends s s2 xs"
      and U: "filter is_upsert xs = []" and F: "filter is_write xs = []"
      and B: "read_before env ?f xs qas"
    for s2 xs qas
  proof -
    from StoreQA_write_extends [OF W] obtain new where
      n: "extends s2 s' new" "guarded q a new"
        "(filter is_write new = [] \<and> (\<exists>err. r = Some err)) \<or>
            (\<exists>pre now data wr. new = pre @ [EvNow now, EvWriteFile ?f data wr] \<and>
               (\<forall>c. ready_from c q a pre) \<and> appended env qas q a now = Inr data \<and>
               r = map_option (Wrap ''failed to write Q&As to file'') wr)"
      by blast
    have X': "extends s s' (xs @ new)"
      using X n(1) by (rule extends_trans)
    have G: "guarded q a (xs @ new)"
      using U n(2) by (simp add: guarded_append guarded_no_upsert)
    from n(3) show ?thesis
    proof
      assume "filter is_write new = [] \<and> (\<exists>err. r = Some err)"
      with X' G F show ?thesis
        by (intro exI [of _ "xs @ new"]) simp
    next
      assume "\<exists>pre now data wr. new = pre @ [EvNow now, EvWriteFile ?f data wr] \<and>
               (\<forall>c. ready_from c q a pre) \<and> appended env qas q a now = Inr data \<and>
               r = map_option (Wrap ''failed to write Q&As to file'') wr"
      then obtain pre now data wr where
        p: "new = pre @ [EvNow now, EvWriteFile ?f data wr]" "\<forall>c. ready_from c q a pre"
          "appended env qas q a now = Inr data"
          "r = map_option (Wrap ''failed to write Q&As to file'') wr"
        by blast
      have R: "\<forall>c. ready_from c q a (xs @ pre)"
        using p(2) U F by (simp add: ready_from_prefix no_upsert_ok)
      have B': "read_before env ?f (xs @ pre) qas"
        using B by (auto simp: read_before_def)
      have "xs @ new = (xs @ pre) @ [EvNow now, EvWriteFile ?f data wr]"
        using p(1) by simp
      with X' G R B' p(3,4) show ?thesis
        by blast
    qed
  qed
  obtain mk s1 where P1: "call (os_MkdirAll env vp) (EvMkdirAll vp) s = (mk, s1)"
    by (meson surj_pair)
  note X1 = extends_call [OF P1]
  show ?thesis
  proof (cases mk)
    case (Some err)
    with P1 assms have "r = Some (Wrap ''failed to create vault directory'' err)" "s' = s1"
      by (auto simp: StoreQA_archive_def)
    with X1 Some show ?thesis
      by (intro exI [of _ "[EvMkdirAll vp (Some err)]"]) (simp add: guarded_Cons guarded_Nil)
  next
    case None
    obtain st s2 where P2: "call (os_Stat env ?f) (EvStat ?f) s1 = (st, s2)"
      by (meson surj_pair)
    note X2 = extends_call [OF P2]
    show ?thesis
    proof (cases st)
      case (Some err)
      with P1 None P2 assms have W: "StoreQA_write env vs ?f \<lparr>QAs = []\<rparr> q a s2 = (r, s')"
        by (auto simp: StoreQA_archive_def Let_def)
      from X1 X2 have "extends s s2 [EvMkdirAll vp mk, EvStat ?f (Some err)]"
        using Some by (simp add: extends_def)
      then show ?thesis
        by (rule step [OF W]) (simp_all add: read_before_def)
    next
      case st_ok: None
      obtain rd s3 where P3: "call (os_ReadFile env ?f) (EvReadFile ?f) s2 = (rd, s3)"
        by (meson surj_pair)
      note X3 = extends_call [OF P3]
      from X1 X2 X3 have X: "extends s s3 [EvMkdirAll vp mk, EvStat ?f None, EvReadFile ?f rd]"
        using st_ok by (simp add: extends_def)
      show ?thesis
      proof (cases rd)
        case (Inl err)
        with P1 None P2 st_ok P3 assms have
          "r = Some (Wrap ''failed to read existing Q&A file'' err)" "s' = s3"
          by (auto simp: StoreQA_archive_def Let_def)
        with X show ?thesis
          by (intro exI [of _ "[EvMkdirAll vp mk, EvStat ?f None, EvReadFile ?f rd]"])
            (simp add: guarded_Cons guarded_Nil)
      next
        case (Inr raw)
        show ?thesis
        proof (cases "json_Unmarshal env raw")
          case (Inl err)
          with P1 None P2 st_ok P3 Inr assms have
            "r = Some (Wrap ''failed to parse existing Q&A file'' err)" "s' = s3"
            by (auto simp: StoreQA_archive_def Let_def)
          with X show ?thesis
            by (intro exI [of _ "[EvMkdirAll vp mk, EvStat ?f None, EvReadFile ?f rd]"])
              (simp add: guarded_Cons guarded_Nil)
        next
          case parsed: (Inr qas)
          with P1 None P2 st_ok P3 Inr assms have
            W: "StoreQA_write env vs ?f qas q a s3 = (r, s')"
            by (auto simp: StoreQA_archive_def Let_def)
          show ?thesis
            by (rule step [OF W X]) (simp_all add: read_before_def Inr parsed)
        qed
      qed
    qed
  qed
qed

lemma Model_StoreQA_extends:
  assumes "Model_StoreQA env m q a s = (r, s')"
  shows "\<exists>new. extends s s' new \<and> guarded q a new \<and>
           ((r = None \<and> filter is_write new = [] \<and> filter is_upsert new = [] \<and>
             (\<exists>vs s1. VectorStore m = Some vs \<and> QAExists vs q a s = (Inr True, s1))) \<or>
            (filter is_write new = [] \<and> (\<exists>err. r = Some err)) \<or>
            (\<exists>pre now data wr qas.
               new = pre @ [EvNow now, EvWriteFile (archive_path (VaultPath m)) data wr] \<and>
               ready_to_write q a pre \<and> read_before env (archive_path (VaultPath m)) pre qas \<and>
               appended env qas q a now = Inr data \<and>
               r = map_option (Wrap ''failed to write Q&As to file'') wr))"
proof (cases "VectorStore m")
  case None
  with assms have "r = Some (Error ''vector store is not initialized'')" "s' = s"
    by (auto simp: Model_StoreQA_def)
  then show ?thesis
    by (intro exI [of _ "[]"]) (simp add: extends_refl guarded_Nil)
next
  case (Some vs)
  obtain x s1 where Q: "QAExists vs q a s = (x, s1)"
    by (meson surj_pair)
  from QAExists_extends [OF Q] obtain n1 where
    n1: "extends s s1 n1" "filter is_upsert n1 = []" "filter is_write n1 = []"
    by blast
  show ?thesis
  proof (cases "x = Inr True")
    case True
    with Some Q assms have "r = None" "s' = s1"
      by (auto simp: Model_StoreQA_def)
    with n1 True Q Some show ?thesis
      by (intro exI [of _ n1]) (auto simp: guarded_no_upsert)
  next
    case False
    with Some Q assms have "StoreQA_archive env vs (VaultPath m) q a s1 = (r, s')"
      by (cases x) (auto simp: Model_StoreQA_def split: if_splits)
    from StoreQA_archive_extends [OF this] obtain n2 where
      n2: "extends s1 s' n2" "guarded q a n2"
        "(filter is_write n2 = [] \<and> (\<exists>err. r = Some err)) \<or>
            (\<exists>pre now data wr qas.
               n2 = pre @ [EvNow now, EvWriteFile (archive_path (VaultPath m)) data wr] \<and>
               (\<forall>c. ready_from c q a pre) \<and> read_before env (archive_path (VaultPath m)) pre qas \<and>
               appended env qas q a now = Inr data \<and>
               r = map_option (Wrap ''failed to write Q&As to file'') wr)"
      by blast
    have X: "extends s s' (n1 @ n2)"
      using n1 n2 by (simp add: extends_trans)
    have G: "guarded q a (n1 @ n2)"
      using n1 n2 by (simp add: guarded_append guarded_no_upsert)
    from n2(3) show ?thesis
    proof
      assume "filter is_write n2 = [] \<and> (\<exists>err. r = Some err)"
      with n1 X G show ?thesis
        by (intro exI [of _ "n1 @ n2"]) simp
    next
      assume "\<exists>pre now data wr qas.
               n2 = pre @ [EvNow now, EvWriteFile (archive_path (VaultPath m)) data wr] \<and>
               (\<forall>c. ready_from c q a pre) \<and> read_before env (archive_path (VaultPath m)) pre qas \<and>
               appended env qas q a now = Inr data \<and>
               r = map_option (Wrap ''failed to write Q&As to file'') wr"
      then obtain pre now data wr qas where
        p: "n2 = pre @ [EvNow now, EvWriteFile (archive_path (VaultPath m)) data wr]"
           "\<forall>c. ready_from c q a pre" "read_before env (archive_path (VaultPath m)) pre qas"
           "appended env qas q a now = Inr data"
           "r = map_option (Wrap ''failed to write Q&As to file'') wr"
        by blast
      have R: "ready_to_write q a (n1 @ pre)"
        using p(2) n1 by (simp add: ready_to_write_def ready_from_prefix no_upsert_ok)
      have B: "read_before env (archive_path (VaultPath m)) (n1 @ pre) qas"
        using p(3) by (auto simp: read_before_def)
      have "n1 @ n2 = (n1 @ pre) @ [EvNow now, EvWriteFile (archive_path (VaultPath m)) data wr]"
        using p(1) by simp
      with X G R B p(4,5) show ?thesis
        by blast
    qed
  qed
qed

subsection \<open>Evaluation in the in-memory world\<close>

lemma archive_path_vault: "archive_path ''vault'' = ''vault/que_ans.json''"
  by (simp add: archive_path_def filepath_Join_def filepath_Clean_def)

lemmas mem_defs = mem_env_def mem_model_def mem_store_def mem0_def start_def length_embedder_def
  mem_Search_def mem_Upsert_def mem_Get_def mem_Create_def ranked_def to_scored_def must_match_def
  similarity_def dot_def fresh_id_def stamp_def settle_def accept_def write_point_def

lemmas op_defs = Model_StoreQA_def StoreQA_archive_def StoreQA_write_def VectorStore_StoreQA_def
  StoreVector_def QAExists_def Embed_def call_def emit_def exists_request_def qa_metadata_def
  archive_path_vault Let_def

subsection \<open>A failed duplicate check\<close>

text \<open>
  C5, as the claim states it, fails for Model.StoreQA: with the store unreachable for the
  first search only, the search of its duplicate check fails, and the operation still
  returns nil, having made one upsert and written the archive.
\<close>

theorem StoreQA_flaky_search:
  "outcome flaky_run =
     (None, True, 1, 1, Some \<lparr>QAs = [\<lparr>Question = q1, Answer = a1, Time = 1\<rparr>]\<rparr>)"
  by (simp add: outcome_def flaky_run_def q1_def a1_def mem_defs op_defs
      cong: let_weak_cong prod.case_cong_weak)

text \<open>
  C5, amended: when the question is embedded and the search of its duplicate check fails
  with \<open>e\<close>, VectorStore.StoreQA returns the error "failed to check for existing Q&A:
  search failed: e" and makes no upsert. Model.StoreQA drops the error of its own
  preliminary check and goes on to VectorStore.StoreQA; in every run of it, each upsert
  comes directly after a search that succeeded and returned no candidate matching the
  pair, so a failed search never counts as "not a duplicate" for the write.
\<close>

theorem failed_search_blocks_upsert:
  "(Embed vs q s = (Inr v, s1) \<and>
    call (points_Search vs (exists_request vs v)) (EvSearch (exists_request vs v)) s1 = (Inl e, s2)
    \<longrightarrow>
      VectorStore_StoreQA env vs q a qe ae s =
        (Some (Wrap ''failed to check for existing Q&A'' (Wrap ''search failed'' e)),
         emit (EvLog Err ''error searching for similar questions'') s2) \<and>
      filter is_upsert (trace (emit (EvLog Err ''error searching for similar questions'') s2)) =
        filter is_upsert (trace s)) \<and>
   (\<exists>new. trace (snd (Model_StoreQA env m q a s)) = trace s @ new \<and> guarded q a new)"
proof (intro conjI impI)
  assume A: "Embed vs q s = (Inr v, s1) \<and>
    call (points_Search vs (exists_request vs v)) (EvSearch (exists_request vs v)) s1 = (Inl e, s2)"
  then show "VectorStore_StoreQA env vs q a qe ae s =
        (Some (Wrap ''failed to check for existing Q&A'' (Wrap ''search failed'' e)),
         emit (EvLog Err ''error searching for similar questions'') s2)"
    by (simp add: VectorStore_StoreQA_def QAExists_def)
  from A Embed_extends [of vs q s "Inr v" s1]
  have "extends s s1 [EvEmbed q (Inr v)]"
    by auto
  moreover from A have "extends s1 s2 [EvSearch (exists_request vs v) (Inl e)]"
    by (auto dest: extends_call)
  ultimately show "filter is_upsert (trace (emit (EvLog Err ''error searching for similar questions'') s2)) =
        filter is_upsert (trace s)"
    by (simp add: extends_def emit_def)
next
  from Model_StoreQA_extends [of env m q a s "fst (Model_StoreQA env m q a s)"
      "snd (Model_StoreQA env m q a s)"]
  show "\<exists>new. trace (snd (Model_StoreQA env m q a s)) = trace s @ new \<and> guarded q a new"
    by (auto simp: extends_def)
qed

theorem failed_search_blocks_upsert_witness:
  "fst (VectorStore_StoreQA mem_env (mem_store ''askai_questions'' length_embedder) q1 a1
          [11, 1, 0] [38, 1, 0] (start (mem0\<lparr>m_search_faults := 2\<rparr>))) =
     Some (Wrap ''failed to check for existing Q&A'' (Wrap ''search failed'' (Error ''unavailable''))) \<and>
   (\<exists>new. trace (snd down_run) = [] @ new \<and> guarded q1 a1 new)"
proof -
  let ?vs = "mem_store ''askai_questions'' length_embedder"
  let ?s = "start (mem0\<lparr>m_search_faults := 2\<rparr>)"
  let ?s1 = "snd (Embed ?vs q1 ?s)"
  let ?req = "exists_request ?vs [11, 1, 0]"
  let ?s2 = "snd (call (points_Search ?vs ?req) (EvSearch ?req) ?s1)"
  have E: "Embed ?vs q1 ?s = (Inr [11, 1, 0], ?s1)"
    by (simp add: Embed_def call_def q1_def mem_store_def length_embedder_def)
  have S: "call (points_Search ?vs ?req) (EvSearch ?req) ?s1 = (Inl (Error ''unavailable''), ?s2)"
    by (simp add: Embed_def call_def q1_def mem_defs)
  from failed_search_blocks_upsert [of ?vs q1 ?s "[11, 1, 0]" ?s1 "Error ''unavailable''" ?s2
      mem_env a1 "[11, 1, 0]" "[38, 1, 0]" mem_model] E S
  show ?thesis
    by (simp add: down_run_def start_def)
qed

subsection \<open>The archive\<close>

text \<open>
  C2, as the claim states it, fails: the pair of the first call is found in the store by
  the second call, which returns nil without a search failure, an upsert or a file
  write; after the two calls the archive holds one entry.
\<close>

theorem StoreQA_duplicate_not_archived:
  "outcome second_run =
     (None, False, 0, 0, Some \<lparr>QAs = [\<lparr>Question = q1, Answer = a1, Time = 1\<rparr>]\<rparr>)"
  by (simp add: outcome_def second_run_def first_run_def q1_def a1_def mem_defs op_defs
      cong: let_weak_cong prod.case_cong_weak)

text \<open>
  C2, amended: a call of Model.StoreQA ends in one of three ways. Its own duplicate check
  finds the pair in the store: it returns nil and makes no file write and no upsert. Or
  it returns an error and has made no file write. Or it makes exactly one file write, as
  its last step, after both embeddings and VectorStore.StoreQA succeeded (every upsert
  made succeeded): the write puts into que_ans.json the Q&As the call had read (none when
  os.Stat reported an error) with exactly one entry appended, holding the question, the
  answer and the time, and the call returns nil when the write succeeds and the wrapped
  error of the write otherwise.
\<close>

theorem StoreQA_archive_entry:
  "Model_StoreQA env m q a s = (r, s') \<Longrightarrow>
   \<exists>new. trace s' = trace s @ new \<and>
     ((r = None \<and> filter is_write new = [] \<and> filter is_upsert new = [] \<and>
       (\<exists>vs s1. VectorStore m = Some vs \<and> QAExists vs q a s = (Inr True, s1))) \<or>
      ((\<exists>err. r = Some err) \<and> filter is_write new = []) \<or>
      (\<exists>pre now data wr qas.
         new = pre @ [EvNow now, EvWriteFile (archive_path (VaultPath m)) data wr] \<and>
         ready_to_write q a pre \<and>
         read_before env (archive_path (VaultPath m)) pre qas \<and>
         appended env qas q a now = Inr data \<and>
         r = map_option (Wrap ''failed to write Q&As to file'') wr))"
  by (drule Model_StoreQA_extends) (auto simp: extends_def)

theorem StoreQA_archive_entry_witness:
  "outcome first_run =
     (None, False, 1, 1, Some \<lparr>QAs = [\<lparr>Question = q1, Answer = a1, Time = 1\<rparr>]\<rparr>) \<and>
   (\<exists>pre now data qas.
      trace (snd first_run) = pre @ [EvNow now, EvWriteFile ''vault/que_ans.json'' data None] \<and>
      ready_to_write q1 a1 pre \<and> read_before mem_env ''vault/que_ans.json'' pre qas \<and>
      appended mem_env qas q1 a1 now = Inr data)"
proof -
  have O: "outcome first_run =
     (None, False, 1, 1, Some \<lparr>QAs = [\<lparr>Question = q1, Answer = a1, Time = 1\<rparr>]\<rparr>)"
    by (simp add: outcome_def first_run_def q1_def a1_def mem_defs op_defs
        cong: let_weak_cong prod.case_cong_weak)
  then have R: "fst first_run = None" and W: "length (filter is_write (trace (snd first_run))) = 1"
    by (simp_all add: outcome_def)
  have P: "archive_path (VaultPath mem_model) = ''vault/que_ans.json''"
    by (simp add: mem_model_def archive_path_vault)
  have "Model_StoreQA mem_env mem_model q1 a1 (start mem0) = (fst first_run, snd first_run)"
    by (simp add: first_run_def)
  from StoreQA_archive_entry [OF this] obtain new where
    N: "trace (snd first_run) = trace (start mem0) @ new" and
    D: "(fst first_run = None \<and> filter is_write new = [] \<and> filter is_upsert new = [] \<and>
          (\<exists>vs s1. VectorStore mem_model = Some vs \<and>
             QAExists vs q1 a1 (start mem0) = (Inr True, s1))) \<or>
        ((\<exists>err. fst first_run = Some err) \<and> filter is_write new = []) \<or>
        (\<exists>pre now data wr qas.
           new = pre @ [EvNow now, EvWriteFile (archive_path (VaultPath mem_model)) data wr] \<and>
           ready_to_write q1 a1 pre \<and>
           read_before mem_env (archive_path (VaultPath mem_model)) pre qas \<and>
           appended mem_env qas q1 a1 now = Inr data \<and>
           fst first_run = map_option (Wrap ''failed to write Q&As to file'') wr)"
    by blast
  from N W have T: "trace (snd first_run) = new" and "filter is_write new \<noteq> []"
    by (auto simp: start_def)
  with D obtain pre now data wr qas where
    E: "new = pre @ [EvNow now, EvWriteFile (archive_path (VaultPath mem_model)) data wr]"
       "ready_to_write q1 a1 pre"
       "read_before mem_env (archive_path (VaultPath mem_model)) pre qas"
       "appended mem_env qas q1 a1 now = Inr data"
       "fst first_run = map_option (Wrap ''failed to write Q&As to file'') wr"
    by blast
  from E(5) R have "wr = None"
    by simp
  with E T P O show ?thesis
    by auto
qed

text \<open>
  C10, as the claim states it, fails: in a store that holds the pair and is unreachable
  for one search, the duplicate check of Model.StoreQA fails, and the call still writes
  the archive and returns nil, without any upsert (VectorStore.StoreQA finds the pair).
\<close>

theorem StoreQA_blind_check_writes:
  "outcome blind_run =
     (None, True, 0, 1, Some \<lparr>QAs = [\<lparr>Question = q1, Answer = a1, Time = 0\<rparr>]\<rparr>)"
  by (simp add: outcome_def blind_run_def known_def new_point_def q1_def a1_def mem_defs op_defs
      cong: let_weak_cong prod.case_cong_weak)

text \<open>
  C10, amended: whatever Model.StoreQA returns, either it made no file write, or its last
  step was its one write to que_ans.json, and then its result is that of the write. The
  write is reached only after both embeddings succeeded and VectorStore.StoreQA returned
  nil: the search of its duplicate check succeeded and either returned a candidate
  matching the pair, and no upsert was made, or returned none, and exactly one upsert, of
  a point holding the pair, followed and succeeded. The preliminary check of
  Model.StoreQA itself may have failed. So a non-nil error that is not the failure of the
  write itself (store not initialized, vault directory, read, parse, question or answer
  embedding, vector database) comes with no file write.
\<close>

theorem StoreQA_write_is_last:
  "Model_StoreQA env m q a s = (r, s') \<Longrightarrow>
   \<exists>new. trace s' = trace s @ new \<and>
     (filter is_write new = [] \<or>
      (\<exists>pre now data wr.
         new = pre @ [EvNow now, EvWriteFile (archive_path (VaultPath m)) data wr] \<and>
         ready_to_write q a pre \<and>
         r = map_option (Wrap ''failed to write Q&As to file'') wr)) \<and>
     (r \<noteq> None \<and> (\<forall>e. r \<noteq> Some (Wrap ''failed to write Q&As to file'' e)) \<longrightarrow>
        filter is_write new = [])"
proof -
  assume "Model_StoreQA env m q a s = (r, s')"
  from Model_StoreQA_extends [OF this] obtain new where
    X: "extends s s' new" and
    D: "(r = None \<and> filter is_write new = []) \<or>
        (filter is_write new = [] \<and> (\<exists>err. r = Some err)) \<or>
        (\<exists>pre now data wr.
           new = pre @ [EvNow now, EvWriteFile (archive_path (VaultPath m)) data wr] \<and>
           ready_to_write q a pre \<and>
           r = map_option (Wrap ''failed to write Q&As to file'') wr)"
    by blast
  from D have 1: "filter is_write new = [] \<or>
      (\<exists>pre now data wr.
         new = pre @ [EvNow now, EvWriteFile (archive_path (VaultPath m)) data wr] \<and>
         ready_to_write q a pre \<and>
         r = map_option (Wrap ''failed to write Q&As to file'') wr)"
    by blast
  from D have 2: "r \<noteq> None \<and> (\<forall>e. r \<noteq> Some (Wrap ''failed to write Q&As to file'' e)) \<longrightarrow>
        filter is_write new = []"
    by (auto simp: map_option_case split: option.splits)
  from X 1 2 show ?thesis
    unfolding extends_def by blast
qed

theorem StoreQA_write_is_last_witness:
  "outcome down_run =
     (Some (Wrap ''failed to store Q&A in vector database''
        (Wrap ''failed to check for existing Q&A'' (Wrap ''search failed'' (Error ''unavailable'')))),
      True, 0, 0, None) \<and>
   (\<exists>new. trace (snd down_run) = trace (start (mem0\<lparr>m_search_faults := 2\<rparr>)) @ new \<and>
     (filter is_write new = [] \<or>
      (\<exists>pre now data wr.
         new = pre @ [EvNow now, EvWriteFile (archive_path (VaultPath mem_model)) data wr] \<and>
         ready_to_write q1 a1 pre \<and>
         fst down_run = map_option (Wrap ''failed to write Q&As to file'') wr)) \<and>
     filter is_write new = [])"
proof -
  have O: "outcome down_run =
     (Some (Wrap ''failed to store Q&A in vector database''
        (Wrap ''failed to check for existing Q&A'' (Wrap ''search failed'' (Error ''unavailable'')))),
      True, 0, 0, None)"
    by (simp add: outcome_def down_run_def q1_def a1_def mem_defs op_defs
        cong: let_weak_cong prod.case_cong_weak)
  then have R: "fst down_run = Some (Wrap ''failed to store Q&A in vector database''
        (Wrap ''failed to check for existing Q&A'' (Wrap ''search failed'' (Error ''unavailable''))))"
    by (simp add: outcome_def)
  have "Model_StoreQA mem_env mem_model q1 a1 (start (mem0\<lparr>m_search_faults := 2\<rparr>)) =
          (fst down_run, snd down_run)"
    by (simp add: down_run_def)
  from StoreQA_write_is_last [OF this] obtain new where
    N: "trace (snd down_run) = trace (start (mem0\<lparr>m_search_faults := 2\<rparr>)) @ new"
      "filter is_write new = [] \<or>
      (\<exists>pre now data wr.
         new = pre @ [EvNow now, EvWriteFile (archive_path (VaultPath mem_model)) data wr] \<and>
         ready_to_write q1 a1 pre \<and>
         fst down_run = map_option (Wrap ''failed to write Q&As to file'') wr)"
      "fst down_run \<noteq> None \<and>
        (\<forall>e. fst down_run \<noteq> Some (Wrap ''failed to write Q&As to file'' e)) \<longrightarrow>
        filter is_write new = []"
    by blast
  from N(3) R have "filter is_write new = []"
    by simp
  with N(1,2) O show ?thesis
    by blast
qed

subsection \<open>The duplicate check and a repeated store\<close>

lemma match_results_Cons:
  "match_results (r # rs) q a = (candidate_matches q a r \<or> match_results rs q a)"
  by (auto simp: candidate_matches_def payload_matches_def split: option.splits)

lemma match_results_list_ex: "match_results rs q a = list_ex (candidate_matches q a) rs"
  by (induction rs) (simp_all add: match_results_Cons del: match_results.simps(2))

lemma match_scored:
  "sr_with_payload req \<Longrightarrow>
   match_results (map (to_scored req) ps) q a =
     list_ex (\<lambda>p. payload_matches q a (p_payload p)) ps"
  by (induction ps)
    (simp_all add: match_results_Cons candidate_matches_def to_scored_def
      del: match_results.simps(2))

lemma mem_QAExists:
  assumes "m_search_faults (world s) = 0" and "m_collections (world s) name = Some c"
    and "emb q = Inr e" and "length e = c_dim c"
  shows "\<exists>s1. QAExists (mem_store name emb) q a s =
           (Inr (list_ex (\<lambda>p. payload_matches q a (p_payload p))
                   (ranked (exists_request (mem_store name emb) e) (c_points c))), s1) \<and>
           world s1 = (world s)\<lparr>m_collections := (m_collections (world s))(name := Some (settle c))\<rparr> \<and>
           trace s1 = trace s @ [EvEmbed q (Inr e),
             EvSearch (exists_request (mem_store name emb) e)
               (Inr (map (to_scored (exists_request (mem_store name emb) e))
                  (ranked (exists_request (mem_store name emb) e) (c_points c))))]"
  using assms
  by (simp add: QAExists_def Embed_def call_def mem_store_def mem_Search_def match_scored
      exists_request_def)

lemma mem_StoreQA_found:
  assumes "QAExists vs q a s = (Inr True, s1)"
  shows "VectorStore_StoreQA env vs q a qe ae s =
           (None, emit (EvLog Info ''Q&A pair already exists in Qdrant'') s1)"
  using assms by (simp add: VectorStore_StoreQA_def)

lemma mem_StoreQA_new:
  assumes "QAExists (mem_store name emb) q a s = (Inr False, s1)"
    and "m_collections (world s1) name = Some c" and "length e = c_dim c"
  shows "\<exists>s'. VectorStore_StoreQA mem_env (mem_store name emb) q a e ae s = (None, s') \<and>
           world s' = (world s1)\<lparr>m_uuid := Suc (Suc (m_uuid (world s1))),
             m_clock := Suc (m_clock (world s1)),
             m_collections := (m_collections (world s1))
               (name := Some (accept (m_delay (world s1)) (new_point q a e (world s1)) c))\<rparr>"
  using assms
  by (simp add: VectorStore_StoreQA_def StoreVector_def call_def emit_def mem_env_def
      mem_store_def mem_Upsert_def new_point_def Let_def
      cong: let_weak_cong prod.case_cong_weak)

lemma new_point_simps:
  "p_vector (new_point q a e w) = e"
  "p_id (new_point q a e w) = fresh_id (Suc (m_uuid w))"
  "must_match [(''type'', ''qa_pair'')] (new_point q a e w)"
  "payload_matches q a (p_payload (new_point q a e w))"
  by (simp_all add: new_point_def must_match_def payload_matches_def qa_metadata_def)

lemma fresh_id_inj: "fresh_id m = fresh_id n \<longleftrightarrow> m = n"
proof
  assume "fresh_id m = fresh_id n"
  then have "length (fresh_id m) = length (fresh_id n)" by simp
  then show "m = n" by (simp add: fresh_id_def)
qed simp

text \<open>
  C3, as the claim states it, fails: the second call leaves one record only when its
  search returns the record written by the first call. In a store that shows a write to
  the searches after the next one, the second call finds no duplicate and writes again:
  two records of the pair.
\<close>

theorem lagging_store_two_records:
  "tally q1 a1 ''askai_questions''
     (second_store (mem_store ''askai_questions'' length_embedder) q1 a1 [11, 1, 0] [38, 1, 0]
        lagging) = (None, 2)"
proof -
  let ?name = "''askai_questions''"
  let ?vs = "mem_store ?name length_embedder"
  let ?e = "[11, 1, 0] :: vec"
  let ?req = "exists_request ?vs ?e"
  let ?c0 = "\<lparr>c_dim = 3, c_points = [], c_pending = []\<rparr>"
  let ?s = "start lagging"
  have E: "length_embedder q1 = Inr ?e"
    by (simp add: length_embedder_def q1_def)
  have W: "m_search_faults (world ?s) = 0" "m_collections (world ?s) ?name = Some ?c0"
    by (simp_all add: start_def lagging_def mem0_def)
  from mem_QAExists [of ?s ?name ?c0 length_embedder q1 ?e a1] W E obtain s0 where
    Q0: "QAExists ?vs q1 a1 ?s = (Inr False, s0)" and W0: "world s0 = lagging"
    by (auto simp: ranked_def settle_def start_def lagging_def mem0_def)
  let ?n1 = "new_point q1 a1 ?e lagging"
  let ?c1 = "\<lparr>c_dim = 3, c_points = [], c_pending = [(1, ?n1)]\<rparr>"
  from mem_StoreQA_new [OF Q0, of ?c0 ?e "[38, 1, 0]"] W0 obtain s1 where
    S1: "VectorStore_StoreQA mem_env ?vs q1 a1 ?e [38, 1, 0] ?s = (None, s1)" and
    W1: "world s1 = lagging\<lparr>m_uuid := 2, m_clock := 1,
           m_collections := (m_collections lagging)(?name := Some ?c1)\<rparr>"
    by (auto simp: lagging_def mem0_def accept_def)
  have F1: "m_search_faults (world s1) = 0" "m_collections (world s1) ?name = Some ?c1"
    using W1 by (simp_all add: lagging_def mem0_def)
  let ?c2 = "\<lparr>c_dim = 3, c_points = [?n1], c_pending = []\<rparr>"
  from mem_QAExists [of s1 ?name ?c1 length_embedder q1 ?e a1] F1 E obtain s2 where
    Q2: "QAExists ?vs q1 a1 s1 = (Inr False, s2)" and
    W2: "world s2 = (world s1)\<lparr>m_collections := (m_collections (world s1))(?name := Some ?c2)\<rparr>"
    by (auto simp: ranked_def settle_def write_point_def)
  have F2: "m_collections (world s2) ?name = Some ?c2" "m_delay (world s2) = 1"
    "m_uuid (world s2) = 2"
    using W2 W1 by (simp_all add: lagging_def mem0_def)
  let ?n2 = "new_point q1 a1 ?e (world s2)"
  from mem_StoreQA_new [OF Q2 F2(1), of ?e "[38, 1, 0]"] F2 obtain s3 where
    S3: "VectorStore_StoreQA mem_env ?vs q1 a1 ?e [38, 1, 0] s1 = (None, s3)" and
    W3: "m_collections (world s3) ?name =
           Some \<lparr>c_dim = 3, c_points = [?n1], c_pending = [(1, ?n2)]\<rparr>"
    by (auto simp: accept_def)
  from S1 S3 have "second_store ?vs q1 a1 ?e [38, 1, 0] lagging = (None, s3)"
    by (simp add: second_store_def first_store_def)
  moreover have "qa_records q1 a1 (stored_points ?name (world s3)) = [?n1, ?n2]"
    using W3 by (simp add: stored_points_def qa_records_def new_point_simps)
  ultimately show ?thesis
    by (simp add: tally_def)
qed

text \<open>
  C3, amended: QAExists asks for the 5 most similar records of type qa_pair and reports a
  duplicate exactly when one of the returned candidates has a payload whose question and
  answer fields hold the input question and the input answer (string equality, the
  score is not looked at). On a duplicate VectorStore.StoreQA logs "Q&A pair already
  exists in Qdrant", returns nil and makes no upsert. When VectorStore.StoreQA is called
  twice with the same pair, the first call finding no duplicate and returning nil, and
  the search of the second call returns the record written by the first among its
  candidates, then the second call returns nil without an upsert and the two calls
  together made exactly one upsert, which succeeded and wrote one point with the
  question's embedding and the pair in its payload.
\<close>

theorem duplicate_check_and_store:
  "(QAExists vs q a s = (Inr b, s') \<longrightarrow>
      (\<exists>pre v rs. trace s' = pre @ [EvSearch (exists_request vs v) (Inr rs)] \<and>
         sr_limit (exists_request vs v) = 5 \<and>
         sr_must (exists_request vs v) = [(''type'', ''qa_pair'')] \<and>
         b = (\<exists>r pl. r \<in> set rs \<and> sp_payload r = Some pl \<and> payload_matches q a pl))) \<and>
   (QAExists vs q a s = (Inr True, s') \<longrightarrow>
      VectorStore_StoreQA env vs q a qe ae s =
        (None, emit (EvLog Info ''Q&A pair already exists in Qdrant'') s') \<and>
      filter is_upsert (trace (emit (EvLog Info ''Q&A pair already exists in Qdrant'') s')) =
        filter is_upsert (trace s)) \<and>
   (QAExists vs q a s = (Inr False, s0) \<and>
    VectorStore_StoreQA env vs q a qe ae s = (None, s1) \<and>
    QAExists vs q a s1 = (Inr True, s2) \<longrightarrow>
      VectorStore_StoreQA env vs q a qe ae s1 =
        (None, emit (EvLog Info ''Q&A pair already exists in Qdrant'') s2) \<and>
      (\<exists>pre p post.
         trace (emit (EvLog Info ''Q&A pair already exists in Qdrant'') s2) =
           trace s @ pre @ EvUpsert (collection vs) p None # post \<and>
         filter is_upsert pre = [] \<and> filter is_upsert post = [] \<and>
         p_vector p = qe \<and> payload_matches q a (p_payload p)))"
proof (intro conjI impI)
  assume Q: "QAExists vs q a s = (Inr b, s')"
  then obtain v s1 rs where
    "Embed vs q s = (Inr v, s1)"
    "call (points_Search vs (exists_request vs v)) (EvSearch (exists_request vs v)) s1 = (Inr rs, s')"
    "b = match_results rs q a"
    by (auto simp: QAExists_def split: prod.splits sum.splits)
  then have "trace s' = trace s1 @ [EvSearch (exists_request vs v) (Inr rs)]"
    and "b = (\<exists>r pl. r \<in> set rs \<and> sp_payload r = Some pl \<and> payload_matches q a pl)"
    by (auto simp: match_results_list_ex list_ex_iff candidate_matches_def
        split: option.splits dest: extends_call [unfolded extends_def])
  then show "\<exists>pre v rs. trace s' = pre @ [EvSearch (exists_request vs v) (Inr rs)] \<and>
         sr_limit (exists_request vs v) = 5 \<and>
         sr_must (exists_request vs v) = [(''type'', ''qa_pair'')] \<and>
         b = (\<exists>r pl. r \<in> set rs \<and> sp_payload r = Some pl \<and> payload_matches q a pl)"
    by (auto simp: exists_request_def)
next
  assume Q: "QAExists vs q a s = (Inr True, s')"
  then show "VectorStore_StoreQA env vs q a qe ae s =
        (None, emit (EvLog Info ''Q&A pair already exists in Qdrant'') s')"
    by (rule mem_StoreQA_found)
  from QAExists_extends [OF Q]
  show "filter is_upsert (trace (emit (EvLog Info ''Q&A pair already exists in Qdrant'') s')) =
        filter is_upsert (trace s)"
    by (auto simp: extends_def emit_def)
next
  assume H: "QAExists vs q a s = (Inr False, s0) \<and>
    VectorStore_StoreQA env vs q a qe ae s = (None, s1) \<and>
    QAExists vs q a s1 = (Inr True, s2)"
  then have Q0: "QAExists vs q a s = (Inr False, s0)"
    and S1: "VectorStore_StoreQA env vs q a qe ae s = (None, s1)"
    and Q2: "QAExists vs q a s1 = (Inr True, s2)"
    by simp_all
  from Q2 show "VectorStore_StoreQA env vs q a qe ae s1 =
        (None, emit (EvLog Info ''Q&A pair already exists in Qdrant'') s2)"
    by (rule mem_StoreQA_found)
  from QAExists_extends [OF Q0] obtain n0 where
    n0: "trace s0 = trace s @ n0" "filter is_upsert n0 = []"
    by (auto simp: extends_def)
  from QAExists_extends [OF Q2] obtain n2 where
    n2: "trace s2 = trace s1 @ n2" "filter is_upsert n2 = []"
    by (auto simp: extends_def)
  from VectorStore_StoreQA_fresh [OF Q0 S1] obtain i1 i2 t lv msg lv' msg' where
    n1: "trace s1 = trace s0 @
             [EvLog Info ''Storing Q&A'', EvUUID i1,
              EvLog Info ''Storing vector with ID: %s, vector size: %d'', EvUUID i2, EvNow t,
              EvLog Info ''Preparing to store vector in collection '%s' with ID: %s'',
              EvLog Info ''sending upsert request to Qdrant'',
              EvUpsert (collection vs)
                \<lparr>p_id = i2, p_vector = qe,
                   p_payload = map (\<lambda>(k, x). (k, StringValue x)) (qa_metadata q a (RFC3339 env t))\<rparr>
                None,
              EvLog lv msg, EvLog lv' msg']"
    by (auto simp: extends_def)
  let ?p = "\<lparr>p_id = i2, p_vector = qe,
    p_payload = map (\<lambda>(k, x). (k, StringValue x)) (qa_metadata q a (RFC3339 env t))\<rparr>"
  let ?pre = "n0 @ [EvLog Info ''Storing Q&A'', EvUUID i1,
              EvLog Info ''Storing vector with ID: %s, vector size: %d'', EvUUID i2, EvNow t,
              EvLog Info ''Preparing to store vector in collection '%s' with ID: %s'',
              EvLog Info ''sending upsert request to Qdrant'']"
  let ?post = "[EvLog lv msg, EvLog lv' msg'] @ n2 @
    [EvLog Info ''Q&A pair already exists in Qdrant'']"
  have "trace (emit (EvLog Info ''Q&A pair already exists in Qdrant'') s2) =
           trace s @ ?pre @ EvUpsert (collection vs) ?p None # ?post"
    using n0 n1 n2 by (simp add: emit_def)
  moreover have "filter is_upsert ?pre = []" "filter is_upsert ?post = []"
    using n0 n2 by simp_all
  moreover have "p_vector ?p = qe" "payload_matches q a (p_payload ?p)"
    by (simp_all add: metadata_matches)
  ultimately show "\<exists>pre p post.
         trace (emit (EvLog Info ''Q&A pair already exists in Qdrant'') s2) =
           trace s @ pre @ EvUpsert (collection vs) p None # post \<and>
         filter is_upsert pre = [] \<and> filter is_upsert post = [] \<and>
         p_vector p = qe \<and> payload_matches q a (p_payload p)"
    by blast
qed

theorem duplicate_check_and_store_witness:
  "fst (QAExists (mem_store ''askai_questions'' length_embedder) q1 a1 (start known)) = Inr True \<and>
   fst (VectorStore_StoreQA mem_env (mem_store ''askai_questions'' length_embedder) q1 a1
          [11, 1, 0] [38, 1, 0] (start known)) = None \<and>
   filter is_upsert (trace (snd (VectorStore_StoreQA mem_env
     (mem_store ''askai_questions'' length_embedder) q1 a1 [11, 1, 0] [38, 1, 0] (start known)))) = [] \<and>
   tally q1 a1 ''askai_questions''
     (second_store (mem_store ''askai_questions'' length_embedder) q1 a1 [11, 1, 0] [38, 1, 0] mem0) =
     (None, 1) \<and>
   length (filter is_upsert (trace (snd
     (second_store (mem_store ''askai_questions'' length_embedder) q1 a1 [11, 1, 0] [38, 1, 0] mem0)))) = 1"
proof -
  let ?name = "''askai_questions''"
  let ?vs = "mem_store ?name length_embedder"
  let ?e = "[11, 1, 0] :: vec"
  let ?np = "new_point q1 a1 ?e mem0"
  let ?k = "\<lparr>c_dim = 3, c_points = [?np], c_pending = []\<rparr>"
  let ?c0 = "\<lparr>c_dim = 3, c_points = [], c_pending = []\<rparr>"
  let ?log = "EvLog Info ''Q&A pair already exists in Qdrant''"
  have E: "length_embedder q1 = Inr ?e"
    by (simp add: length_embedder_def q1_def)
  have K: "m_search_faults (world (start known)) = 0"
    "m_collections (world (start known)) ?name = Some ?k"
    by (simp_all add: start_def known_def mem0_def)
  have RK: "ranked (exists_request ?vs ?e) [?np] = [?np]"
    by (simp add: ranked_def exists_request_def new_point_simps)
  with mem_QAExists [of "start known" ?name ?k length_embedder q1 ?e a1] K E obtain sk where
    Q: "QAExists ?vs q1 a1 (start known) = (Inr True, sk)"
    by (auto simp: new_point_simps)
  have W: "m_search_faults (world (start mem0)) = 0"
    "m_collections (world (start mem0)) ?name = Some ?c0"
    by (simp_all add: start_def mem0_def)
  from mem_QAExists [of "start mem0" ?name ?c0 length_embedder q1 ?e a1] W E obtain s0 where
    Q0: "QAExists ?vs q1 a1 (start mem0) = (Inr False, s0)" and W0: "world s0 = mem0"
    by (auto simp: ranked_def settle_def start_def mem0_def)
  from mem_StoreQA_new [OF Q0, of ?c0 ?e "[38, 1, 0]"] W0 obtain s1 where
    S1: "VectorStore_StoreQA mem_env ?vs q1 a1 ?e [38, 1, 0] (start mem0) = (None, s1)" and
    W1: "world s1 = mem0\<lparr>m_uuid := 2, m_clock := 1,
           m_collections := (m_collections mem0)(?name := Some ?k)\<rparr>"
    by (auto simp: mem0_def accept_def write_point_def)
  have F1: "m_search_faults (world s1) = 0" "m_collections (world s1) ?name = Some ?k"
    using W1 by (simp_all add: mem0_def)
  from mem_QAExists [of s1 ?name ?k length_embedder q1 ?e a1] F1 E RK obtain s2 where
    Q2: "QAExists ?vs q1 a1 s1 = (Inr True, s2)" and
    W2: "world s2 = (world s1)\<lparr>m_collections := (m_collections (world s1))(?name := Some ?k)\<rparr>"
    by (auto simp: new_point_simps settle_def)
  note T = duplicate_check_and_store [where vs = ?vs and q = q1 and a = a1 and env = mem_env
      and qe = ?e and ae = "[38, 1, 0]"]
  from T [where s = "start known" and b = True and s' = sk] Q
  have B: "VectorStore_StoreQA mem_env ?vs q1 a1 ?e [38, 1, 0] (start known) = (None, emit ?log sk)"
    and U: "filter is_upsert (trace (emit ?log sk)) = filter is_upsert (trace (start known))"
    by blast+
  from T [where s = "start mem0" and ?s0.0 = s0 and ?s1.0 = s1 and ?s2.0 = s2] Q0 S1 Q2
  have B2: "VectorStore_StoreQA mem_env ?vs q1 a1 ?e [38, 1, 0] s1 = (None, emit ?log s2)"
    and "\<exists>pre p post.
         trace (emit ?log s2) = trace (start mem0) @ pre @ EvUpsert (collection ?vs) p None # post \<and>
         filter is_upsert pre = [] \<and> filter is_upsert post = [] \<and>
         p_vector p = ?e \<and> payload_matches q1 a1 (p_payload p)"
    by blast+
  then have U2: "length (filter is_upsert (trace (emit ?log s2))) = 1"
    by (auto simp: start_def)
  from S1 B2 have second: "second_store ?vs q1 a1 ?e [38, 1, 0] mem0 = (None, emit ?log s2)"
    by (simp add: second_store_def first_store_def)
  have "qa_records q1 a1 (stored_points ?name (world (emit ?log s2))) = [?np]"
    using W2 W1 by (simp add: emit_def stored_points_def qa_records_def new_point_simps)
  with Q B U second U2 show ?thesis
    by (simp add: tally_def start_def)
qed

subsection \<open>The length of a stored vector\<close>




subsection \<open>NextTokenCmd\<close>

text \<open>
  C8: the outcomes of NextTokenCmd are exactly these: a non-nil error received from the
  error channel gives StreamErrMsg with that error; a nil value from the error channel
  (sent, or the zero value of the closed channel) gives StreamEndMsg; a value received
  from the token channel gives TokenMsg with that value; the closed and drained token
  channel gives StreamEndMsg. In each case the received value leaves its channel and
  nothing else changes.
\<close>

theorem NextTokenCmd_events:
  "(m, h') \<in> set (NextTokenCmd ch errCh h) \<longleftrightarrow>
     (\<exists>e rest. cbuf (errs h errCh) = Some e # rest \<and> m = StreamErrMsg e \<and>
        h' = h\<lparr>errs := (errs h)(errCh := (errs h errCh)\<lparr>cbuf := rest\<rparr>)\<rparr>) \<or>
     (\<exists>rest. cbuf (errs h errCh) = None # rest \<and> m = StreamEndMsg \<and>
        h' = h\<lparr>errs := (errs h)(errCh := (errs h errCh)\<lparr>cbuf := rest\<rparr>)\<rparr>) \<or>
     (cbuf (errs h errCh) = [] \<and> cclosed (errs h errCh) \<and> m = StreamEndMsg \<and>
        h' = h\<lparr>errs := (errs h)(errCh := errs h errCh)\<rparr>) \<or>
     (\<exists>s rest. cbuf (strs h ch) = s # rest \<and> m = TokenMsg s \<and>
        h' = h\<lparr>strs := (strs h)(ch := (strs h ch)\<lparr>cbuf := rest\<rparr>)\<rparr>) \<or>
     (cbuf (strs h ch) = [] \<and> cclosed (strs h ch) \<and> m = StreamEndMsg \<and>
        h' = h\<lparr>strs := (strs h)(ch := strs h ch)\<rparr>)"
  by (auto simp: NextTokenCmd_def NextTokenCmd_case_def List.map_filter_def recv_ready_def
      chan_recv_def split: list.splits option.splits if_splits)

theorem NextTokenCmd_events_witness:
  "(TokenMsg ''AI '',
    empty_heap\<lparr>strs := (strs empty_heap)(0 := \<lparr>cbuf = [''stands ''], ccap = 64, cclosed = False\<rparr>)\<rparr>)
   \<in> set (NextTokenCmd 0 1
        (empty_heap\<lparr>strs := (strs empty_heap)
           (0 := \<lparr>cbuf = [''AI '', ''stands ''], ccap = 64, cclosed = False\<rparr>)\<rparr>))"
  by (subst NextTokenCmd_events) (simp add: empty_heap_def new_chan_def)

subsection \<open>Teardown\<close>

lemma safeCloseChannels_all_nil:
  "StopCh m = None \<Longrightarrow> ErrCh m = None \<Longrightarrow> StreamCh m = None \<Longrightarrow>
   safeCloseChannels m h = (None, m, h)"
  by (simp add: safeCloseChannels_def safeClose_def safeCloseErrCh_def)

lemma safeCloseChannels_returns_nil:
  "safeCloseChannels m h = (None, m', h') \<Longrightarrow>
   StopCh m' = None \<and> ErrCh m' = None \<and> StreamCh m' = None"
  by (auto simp: safeCloseChannels_def safeClose_def safeCloseErrCh_def
      split: option.splits sum.splits)

text \<open>
  C7: when safeCloseChannels has returned (without a panic), calling it again on the
  resulting model returns without a panic and changes neither the model, whose three
  channel fields are nil, nor any channel of the heap: nothing is closed a second time.
\<close>

theorem safeCloseChannels_idempotent:
  "safeCloseChannels m h = (None, m', h') \<Longrightarrow>
   safeCloseChannels m' h' = (None, m', h') \<and>
   StopCh m' = None \<and> ErrCh m' = None \<and> StreamCh m' = None"
  using safeCloseChannels_all_nil safeCloseChannels_returns_nil by blast

lemma safeCloseChannels_live:
  "safeCloseChannels live_model live_heap = (None, torn_model, torn_heap)"
  by (simp add: safeCloseChannels_def safeClose_def safeCloseErrCh_def chan_close_def
      live_model_def torn_model_def live_heap_def torn_heap_def empty_heap_def new_chan_def)

theorem safeCloseChannels_idempotent_witness:
  "safeCloseChannels live_model live_heap = (None, torn_model, torn_heap) \<and>
   safeCloseChannels torn_model torn_heap = (None, torn_model, torn_heap) \<and>
   StopCh torn_model = None \<and> ErrCh torn_model = None \<and> StreamCh torn_model = None"
  using safeCloseChannels_idempotent [OF safeCloseChannels_live] safeCloseChannels_live
  by simp

end
